theory Spec2Isabelle
  imports Complex_Main
begin

section \<open>Numbers\<close>

text \<open>
  A JavaScript number is an IEEE 754 double: a finite value, an infinity or \<open>NaN\<close>. A
  finite double is modelled by the real it denotes. The two zeros are one value: they
  compare equal, and they differ only as divisors, where the program has a square root
  (never the negative zero, since its argument is a sum of two squares) or the
  literal \<open>2\<close>.
\<close>

datatype number = Val real | PosInf | NegInf | NaN

text \<open>
  \<open>roundEven\<close> rounds a real to the nearest integer, a tie to the even one. \<open>fl\<close>
  rounds a real to the nearest double, a tie to the double with the even significand:
  the spacing of the doubles around \<open>r\<close> is \<open>2 ^ (e - 52)\<close>, with \<open>e\<close> the exponent of
  \<open>r\<close>, and \<open>2 ^ - 1074\<close> below \<open>2 ^ - 1022\<close>, where results go to zero gradually
  (underflow). A result that rounds to \<open>2 ^ 1024\<close> or more is an infinity (overflow).
\<close>

definition roundEven :: "real \<Rightarrow> int" where
  "roundEven t =
     (let f = \<lfloor>t\<rfloor>; d = t - of_int f
      in if d < 1 / 2 then f
         else if 1 / 2 < d then f + 1
         else if even f then f else f + 1)"

definition fl :: "real \<Rightarrow> number" where
  "fl r =
     (if r = 0 then Val 0
      else
        (let e = max \<lfloor>log 2 \<bar>r\<bar>\<rfloor> (- 1022);
             u = 2 powr (of_int e - 52);
             v = of_int (roundEven (r / u)) * u
         in if 2 ^ 1024 \<le> v then PosInf
            else if v \<le> - (2 ^ 1024) then NegInf
            else Val v))"

text \<open>
  The arithmetic of doubles: the exact result, rounded; \<open>NaN\<close> from \<open>NaN\<close>, from
  \<open>\<infinity> - \<infinity>\<close>, \<open>0 * \<infinity>\<close>, \<open>0 / 0\<close> and \<open>\<infinity> / \<infinity>\<close>; an infinity from a division of a
  value other than zero by zero. Every comparison with \<open>NaN\<close> is false.
\<close>

instantiation number :: "{plus, minus, times, uminus, inverse, ord}"
begin

fun plus_number :: "number \<Rightarrow> number \<Rightarrow> number" where
  "plus_number (Val a) (Val b) = fl (a + b)"
| "plus_number NaN _ = NaN"
| "plus_number _ NaN = NaN"
| "plus_number PosInf NegInf = NaN"
| "plus_number NegInf PosInf = NaN"
| "plus_number PosInf _ = PosInf"
| "plus_number _ PosInf = PosInf"
| "plus_number NegInf _ = NegInf"
| "plus_number _ NegInf = NegInf"

fun minus_number :: "number \<Rightarrow> number \<Rightarrow> number" where
  "minus_number (Val a) (Val b) = fl (a - b)"
| "minus_number NaN _ = NaN"
| "minus_number _ NaN = NaN"
| "minus_number PosInf PosInf = NaN"
| "minus_number NegInf NegInf = NaN"
| "minus_number PosInf _ = PosInf"
| "minus_number _ PosInf = NegInf"
| "minus_number NegInf _ = NegInf"
| "minus_number _ NegInf = PosInf"

fun times_number :: "number \<Rightarrow> number \<Rightarrow> number" where
  "times_number (Val a) (Val b) = fl (a * b)"
| "times_number NaN _ = NaN"
| "times_number _ NaN = NaN"
| "times_number PosInf (Val b) = (if b = 0 then NaN else if 0 < b then PosInf else NegInf)"
| "times_number NegInf (Val b) = (if b = 0 then NaN else if 0 < b then NegInf else PosInf)"
| "times_number (Val a) PosInf = (if a = 0 then NaN else if 0 < a then PosInf else NegInf)"
| "times_number (Val a) NegInf = (if a = 0 then NaN else if 0 < a then NegInf else PosInf)"
| "times_number PosInf PosInf = PosInf"
| "times_number PosInf NegInf = NegInf"
| "times_number NegInf PosInf = NegInf"
| "times_number NegInf NegInf = PosInf"

fun uminus_number :: "number \<Rightarrow> number" where
  "uminus_number (Val a) = Val (- a)"
| "uminus_number PosInf = NegInf"
| "uminus_number NegInf = PosInf"
| "uminus_number NaN = NaN"

fun divide_number :: "number \<Rightarrow> number \<Rightarrow> number" where
  "divide_number (Val a) (Val b) =
     (if b = 0 then (if a = 0 then NaN else if 0 < a then PosInf else NegInf)
      else fl (a / b))"
| "divide_number NaN _ = NaN"
| "divide_number _ NaN = NaN"
| "divide_number (Val a) _ = Val 0"
| "divide_number PosInf (Val b) = (if 0 \<le> b then PosInf else NegInf)"
| "divide_number NegInf (Val b) = (if 0 \<le> b then NegInf else PosInf)"
| "divide_number _ _ = NaN"

definition inverse_number :: "number \<Rightarrow> number" where
  "inverse_number a = divide (Val 1) (a::number)"

fun less_number :: "number \<Rightarrow> number \<Rightarrow> bool" where
  "less_number (Val a) (Val b) = (a < b)"
| "less_number NaN _ = False"
| "less_number _ NaN = False"
| "less_number _ NegInf = False"
| "less_number PosInf _ = False"
| "less_number _ _ = True"

fun less_eq_number :: "number \<Rightarrow> number \<Rightarrow> bool" where
  "less_eq_number (Val a) (Val b) = (a \<le> b)"
| "less_eq_number NaN _ = False"
| "less_eq_number _ NaN = False"
| "less_eq_number NegInf _ = True"
| "less_eq_number _ PosInf = True"
| "less_eq_number _ _ = False"

instance ..

end

text \<open>
  \<open>Math.sqrt\<close>, \<open>Math.cos\<close> and \<open>Math.sin\<close>. The square root is the exact root,
  rounded. ECMAScript leaves the cosine and the sine to the implementation, except at
  zero, where they are \<open>1\<close> and \<open>0\<close>; they are the exact values, rounded, here.
  Every theorem below either holds whatever the two functions return or uses them at
  the angle zero only.
\<close>

fun Math_sqrt :: "number \<Rightarrow> number" where
  "Math_sqrt (Val a) = (if a < 0 then NaN else fl (sqrt a))"
| "Math_sqrt PosInf = PosInf"
| "Math_sqrt NegInf = NaN"
| "Math_sqrt NaN = NaN"

fun Math_cos :: "number \<Rightarrow> number" where
  "Math_cos (Val a) = fl (cos a)"
| "Math_cos _ = NaN"

fun Math_sin :: "number \<Rightarrow> number" where
  "Math_sin (Val a) = fl (sin a)"
| "Math_sin _ = NaN"

section \<open>Data\<close>

record vector =
  x :: number
  y :: number

abbreviation vec :: "real \<Rightarrow> real \<Rightarrow> vector" where
  "vec a b \<equiv> \<lparr>x = Val a, y = Val b\<rparr>"

text \<open>The objects built by \<open>makeCircle\<close> and \<open>makeLine\<close>, without their \<open>draw\<close> methods.\<close>

record circle =
  center :: vector
  velocity :: vector
  radius :: number

record line =
  center :: vector
  len :: number
  angle :: number
  rotateSpeed :: number

record world =
  circles :: "circle list"
  lines :: "line list"
  dimensions :: vector
  timeLastCircleMade :: int

definition makeCircle :: "vector \<Rightarrow> circle" where
  "makeCircle c = \<lparr>circle.center = c, velocity = vec 0 0, radius = Val 5\<rparr>"

definition makeLine :: "vector \<Rightarrow> line" where
  "makeLine c = \<lparr>line.center = c, len = Val 70, angle = Val 0, rotateSpeed = Val (1 / 2)\<rparr>"

section \<open>Trigonometry functions\<close>

definition distance :: "vector \<Rightarrow> vector \<Rightarrow> number" where
  "distance point1 point2 =
     (let dx = x point1 - x point2;
          dy = y point1 - y point2
      in Math_sqrt (dx * dx + dy * dy))"

definition magnitude :: "vector \<Rightarrow> number" where
  "magnitude v = Math_sqrt (x v * x v + y v * y v)"

definition unitVector :: "vector \<Rightarrow> vector" where
  "unitVector v = \<lparr>x = x v / magnitude v, y = y v / magnitude v\<rparr>"

definition dotProduct :: "vector \<Rightarrow> vector \<Rightarrow> number" where
  "dotProduct vector1 vector2 = x vector1 * x vector2 + y vector1 * y vector2"

definition vectorBetween :: "vector \<Rightarrow> vector \<Rightarrow> vector" where
  "vectorBetween startPoint endPoint =
     \<lparr>x = x endPoint - x startPoint, y = y endPoint - y startPoint\<rparr>"

text \<open>
  The vector that \<open>lineEndPoints\<close> passes to \<open>unitVector\<close>. The literal \<open>0.01745\<close> is
  the double nearest to it.
\<close>

definition lineHeading :: "line \<Rightarrow> vector" where
  "lineHeading l =
     (let angleRadians = angle l * fl 0.01745
      in \<lparr>x = Math_cos angleRadians, y = Math_sin angleRadians\<rparr>)"

text \<open>The two-element array that \<open>lineEndPoints\<close> returns is a pair.\<close>

definition lineEndPoints :: "line \<Rightarrow> vector \<times> vector" where
  "lineEndPoints l =
     (let lineUnitVector = unitVector (lineHeading l);
          endOffsetFromCenterVector =
            \<lparr>x = x lineUnitVector * len l / Val 2, y = y lineUnitVector * len l / Val 2\<rparr>
      in (\<lparr>x = x (line.center l) + x endOffsetFromCenterVector,
           y = y (line.center l) + y endOffsetFromCenterVector\<rparr>,
          \<lparr>x = x (line.center l) - x endOffsetFromCenterVector,
           y = y (line.center l) - y endOffsetFromCenterVector\<rparr>))"

text \<open>
  The local values of \<open>pointOnLineClosestToCircle\<close>: the unit vector along the line,
  from its first end to its second, and the projection of the circle's centre on it.
\<close>

definition lineUnitVector :: "line \<Rightarrow> vector" where
  "lineUnitVector l =
     (let lineEndPoint1 = fst (lineEndPoints l);
          lineEndPoint2 = snd (lineEndPoints l)
      in unitVector (vectorBetween lineEndPoint1 lineEndPoint2))"

definition projection :: "circle \<Rightarrow> line \<Rightarrow> number" where
  "projection c l =
     (let lineEndPoint1 = fst (lineEndPoints l);
          lineEndToCircleVector = vectorBetween lineEndPoint1 (circle.center c)
      in dotProduct lineEndToCircleVector (lineUnitVector l))"

definition pointOnLineClosestToCircle :: "circle \<Rightarrow> line \<Rightarrow> vector" where
  "pointOnLineClosestToCircle c l =
     (let lineEndPoint1 = fst (lineEndPoints l);
          lineEndPoint2 = snd (lineEndPoints l)
      in if projection c l \<le> Val 0 then lineEndPoint1
         else if projection c l \<ge> len l then lineEndPoint2
         else \<lparr>x = x lineEndPoint1 + x (lineUnitVector l) * projection c l,
               y = y lineEndPoint1 + y (lineUnitVector l) * projection c l\<rparr>)"

definition isLineIntersectingCircle :: "circle \<Rightarrow> line \<Rightarrow> bool" where
  "isLineIntersectingCircle c l =
     (let closest = pointOnLineClosestToCircle c l;
          circleToLineDistance = distance (circle.center c) closest
      in circleToLineDistance < radius c)"

section \<open>Physics functions\<close>

text \<open>The literal \<open>0.06\<close> is the double nearest to it.\<close>

definition applyGravity :: "circle \<Rightarrow> circle" where
  "applyGravity c = c\<lparr>velocity := (velocity c)\<lparr>y := y (velocity c) + fl 0.06\<rparr>\<rparr>"

definition moveCircle :: "circle \<Rightarrow> circle" where
  "moveCircle c =
     c\<lparr>circle.center :=
         \<lparr>x = x (circle.center c) + x (velocity c),
          y = y (circle.center c) + y (velocity c)\<rparr>\<rparr>"

text \<open>The vector that \<open>bounceLineNormal\<close> passes to \<open>unitVector\<close>.\<close>

definition circleToClosestPointOnLineVector :: "circle \<Rightarrow> line \<Rightarrow> vector" where
  "circleToClosestPointOnLineVector c l =
     vectorBetween (pointOnLineClosestToCircle c l) (circle.center c)"

definition bounceLineNormal :: "circle \<Rightarrow> line \<Rightarrow> vector" where
  "bounceLineNormal c l = unitVector (circleToClosestPointOnLineVector c l)"

text \<open>
  \<open>bounceCircle\<close> is two steps. The first reflects the velocity in the normal of the
  line; \<open>dot\<close> is computed once, from the velocity before either component changes.
\<close>

definition reflectVelocity :: "circle \<Rightarrow> line \<Rightarrow> circle" where
  "reflectVelocity c l =
     (let n = bounceLineNormal c l;
          dot = dotProduct (velocity c) n
      in c\<lparr>velocity :=
           \<lparr>x = x (velocity c) - Val 2 * dot * x n,
            y = y (velocity c) - Val 2 * dot * y n\<rparr>\<rparr>)"

text \<open>
  The second step is the loop \<open>while (isLineIntersectingCircle(circle, line))
  moveCircle(circle)\<close>. Nothing bounds it, so the result is an option: \<open>None\<close> is
  the loop running forever.
\<close>

partial_function (option) clearLine :: "circle \<Rightarrow> line \<Rightarrow> circle option" where
  "clearLine c l =
     (if isLineIntersectingCircle c l then clearLine (moveCircle c) l else Some c)"

definition bounceCircle :: "circle \<Rightarrow> line \<Rightarrow> circle option" where
  "bounceCircle c l = clearLine (reflectVelocity c l) l"

section \<open>The simulation step\<close>

definition isCircleInWorld :: "circle \<Rightarrow> vector \<Rightarrow> bool" where
  "isCircleInWorld c worldDimensions \<longleftrightarrow>
     x (circle.center c) > - radius c \<and>
     x (circle.center c) < x worldDimensions + radius c \<and>
     y (circle.center c) > - radius c \<and>
     y (circle.center c) < y worldDimensions + radius c"

text \<open>The inner loop of \<open>updateCircles\<close>: the lines in the order of the array.\<close>

fun bounceOffLines :: "circle \<Rightarrow> line list \<Rightarrow> circle option" where
  "bounceOffLines c [] = Some c"
| "bounceOffLines c (l # ls) =
     (if isLineIntersectingCircle c l
      then (case bounceCircle c l of None \<Rightarrow> None | Some c' \<Rightarrow> bounceOffLines c' ls)
      else bounceOffLines c ls)"

text \<open>\<open>circles.splice(i, 1)\<close>.\<close>

definition splice1 :: "'a list \<Rightarrow> nat \<Rightarrow> 'a list" where
  "splice1 cs i = take i cs @ drop (Suc i) cs"

text \<open>
  The outer loop of \<open>updateCircles\<close> runs \<open>i\<close> from the last index down to \<open>0\<close>;
  \<open>updateCirclesFrom n\<close> is the loop with the indices below \<open>n\<close> still to do. The
  circle is an object changed in place, so the changed circle is stored back at \<open>i\<close>.
\<close>

fun updateCirclesFrom :: "nat \<Rightarrow> world \<Rightarrow> world option" where
  "updateCirclesFrom 0 w = Some w"
| "updateCirclesFrom (Suc i) w =
     (case bounceOffLines (circles w ! i) (lines w) of
        None \<Rightarrow> None
      | Some c1 \<Rightarrow>
          (let c2 = moveCircle (applyGravity c1);
               cs = (circles w)[i := c2];
               cs' = (if \<not> isCircleInWorld c2 (dimensions w) then splice1 cs i else cs)
           in updateCirclesFrom i (w\<lparr>circles := cs'\<rparr>)))"

definition updateCircles :: "world \<Rightarrow> world option" where
  "updateCircles w = updateCirclesFrom (length (circles w)) w"

text \<open>\<open>new Date().getTime()\<close> is the parameter \<open>now\<close>.\<close>

definition createNewCircleIfDue :: "int \<Rightarrow> world \<Rightarrow> world" where
  "createNewCircleIfDue now w =
     (if now - timeLastCircleMade w > 400
      then w\<lparr>circles := circles w @ [makeCircle \<lparr>x = x (dimensions w) / Val 2, y = Val (- 5)\<rparr>],
             timeLastCircleMade := now\<rparr>
      else w)"

fun rotateLines :: "line list \<Rightarrow> line list" where
  "rotateLines [] = []"
| "rotateLines (l # ls) = l\<lparr>angle := angle l + rotateSpeed l\<rparr> # rotateLines ls"

definition updateLines :: "world \<Rightarrow> world" where
  "updateLines w = w\<lparr>lines := rotateLines (lines w)\<rparr>"

definition update :: "int \<Rightarrow> world \<Rightarrow> world option" where
  "update now w =
     (case updateCircles w of
        None \<Rightarrow> None
      | Some w1 \<Rightarrow> Some (updateLines (createNewCircleIfDue now w1)))"

section \<open>Auxiliary notions\<close>

abbreviation nanvec :: vector where
  "nanvec \<equiv> \<lparr>x = NaN, y = NaN\<rparr>"


text \<open>
  What a step does to the circles, in the words of the specification and without
  indices. A body meets the segments one after the other, in the order of the list:
  each segment is tested and, on a hit, the body bounces off it, and the next segment
  sees the body as the bounce left it. Then gravity is added to the velocity and the
  velocity to the centre. The bodies still in the world are kept, in their order.
\<close>

definition collide_spec :: "circle \<Rightarrow> line \<Rightarrow> circle option" where
  "collide_spec body segment =
     (if isLineIntersectingCircle body segment then bounceCircle body segment else Some body)"

definition segmentsPass_spec :: "line list \<Rightarrow> circle \<Rightarrow> circle option" where
  "segmentsPass_spec segments body =
     foldl (\<lambda>r segment. Option.bind r (\<lambda>b. collide_spec b segment)) (Some body) segments"

definition gravity_spec :: "circle \<Rightarrow> circle" where
  "gravity_spec body =
     body\<lparr>velocity := \<lparr>x = x (velocity body), y = y (velocity body) + fl 0.06\<rparr>\<rparr>"

definition motion_spec :: "circle \<Rightarrow> circle" where
  "motion_spec body =
     body\<lparr>circle.center :=
       \<lparr>x = x (circle.center body) + x (velocity body),
        y = y (circle.center body) + y (velocity body)\<rparr>\<rparr>"

definition processBody_spec :: "line list \<Rightarrow> circle \<Rightarrow> circle option" where
  "processBody_spec segments body =
     map_option (\<lambda>b. motion_spec (gravity_spec b)) (segmentsPass_spec segments body)"

definition updateCircles_spec :: "world \<Rightarrow> world option" where
  "updateCircles_spec w =
     map_option (\<lambda>cs. w\<lparr>circles := filter (\<lambda>c. isCircleInWorld c (dimensions w)) cs\<rparr>)
       (those (map (processBody_spec (lines w)) (circles w)))"

section \<open>Rounding to a double\<close>

lemma roundEven_cases: "roundEven t = \<lfloor>t\<rfloor> \<or> roundEven t = \<lfloor>t\<rfloor> + 1"
  by (simp add: roundEven_def Let_def)

lemma roundEven_of_int [simp]: "roundEven (of_int n) = n"
  by (simp add: roundEven_def)

lemma roundEven_ge:
  assumes "of_int n \<le> t"
  shows "n \<le> roundEven t"
proof -
  from assms have "n \<le> \<lfloor>t\<rfloor>" by (simp add: le_floor_iff)
  with roundEven_cases [of t] show ?thesis by auto
qed

lemma roundEven_le:
  assumes "t \<le> of_int n"
  shows "roundEven t \<le> n"
proof (cases "t = of_int n")
  case True
  then show ?thesis by simp
next
  case False
  with assms have "t < of_int n" by simp
  then have "\<lfloor>t\<rfloor> < n" by (simp add: floor_less_iff)
  with roundEven_cases [of t] show ?thesis by auto
qed


lemma floor_log2_le:
  assumes "r \<noteq> 0" "\<bar>r\<bar> < 2 powr (of_int n + 1)"
  shows "\<lfloor>log 2 \<bar>r\<bar>\<rfloor> \<le> n"
proof -
  from assms(1) have pos: "0 < \<bar>r\<bar>" by simp
  from assms(2) pos have "log 2 \<bar>r\<bar> < of_int n + 1"
    by (simp add: log_less_iff)
  then show ?thesis by (simp add: floor_le_iff)
qed

lemma two_powr_int: "0 \<le> j \<Longrightarrow> (2::real) powr (of_int j) = of_int (2 ^ nat j)"
proof -
  assume "0 \<le> j"
  then have "(2::real) powr (of_int j) = 2 powr (real (nat j))" by simp
  also have "\<dots> = 2 ^ nat j" by (rule powr_realpow) simp
  finally show ?thesis by simp
qed

text \<open>Rounding a real between two integers below \<open>2^53\<close> stays between them.\<close>

lemma fl_between:
  assumes "of_int lo \<le> r" "r \<le> of_int hi" "\<bar>lo\<bar> < 2 ^ 53" "\<bar>hi\<bar> < 2 ^ 53"
  shows "\<exists>v. fl r = Val v \<and> of_int lo \<le> v \<and> v \<le> of_int hi"
proof (cases "r = 0")
  case True
  with assms show ?thesis by (simp add: fl_def)
next
  case False
  define e where "e = max \<lfloor>log 2 \<bar>r\<bar>\<rfloor> (- 1022)"
  define u :: real where "u = 2 powr (of_int e - 52)"
  define v where "v = of_int (roundEven (r / u)) * u"
  have upos: "0 < u" by (simp add: u_def)
  from assms have "\<bar>r\<bar> \<le> max \<bar>of_int lo\<bar> \<bar>of_int hi :: real\<bar>" by linarith
  moreover from assms(3,4) have "max \<bar>of_int lo\<bar> \<bar>of_int hi :: real\<bar> < 2 ^ 53"
    by (metis (mono_tags) max_less_iff_conj of_int_abs of_int_less_numeral_power_cancel_iff)
  ultimately have "\<bar>r\<bar> < 2 ^ 53" by linarith
  then have "\<bar>r\<bar> < 2 powr (of_int 52 + 1)" by simp
  from floor_log2_le [OF False this] have e52: "e \<le> 52" by (simp add: e_def)
  define j where "j = 52 - e"
  have j0: "0 \<le> j" using e52 by (simp add: j_def)
  have "u = 2 powr (- of_int j)" by (simp add: u_def j_def)
  then have u: "u = 1 / of_int (2 ^ nat j)"
    by (simp add: powr_minus_divide two_powr_int [OF j0])
  have lo: "of_int lo \<le> v"
  proof -
    have "of_int (lo * 2 ^ nat j) \<le> r / u" using assms(1) by (simp add: u mult_right_mono)
    then have "lo * 2 ^ nat j \<le> roundEven (r / u)" by (rule roundEven_ge)
    then have "of_int (lo * 2 ^ nat j) * u \<le> v"
      unfolding v_def using upos by (simp only: mult_le_cancel_right_pos of_int_le_iff)
    then show ?thesis by (simp add: u)
  qed
  have hi: "v \<le> of_int hi"
  proof -
    have "r / u \<le> of_int (hi * 2 ^ nat j)" using assms(2) by (simp add: u mult_right_mono)
    then have "roundEven (r / u) \<le> hi * 2 ^ nat j" by (rule roundEven_le)
    then have "v \<le> of_int (hi * 2 ^ nat j) * u"
      unfolding v_def using upos by (simp only: mult_le_cancel_right_pos of_int_le_iff)
    then show ?thesis by (simp add: u)
  qed
  from assms(3,4) have "\<bar>of_int lo :: real\<bar> < 2 ^ 53" "\<bar>of_int hi :: real\<bar> < 2 ^ 53"
    by (metis of_int_abs of_int_less_numeral_power_cancel_iff)+
  with lo hi have "\<bar>v\<bar> < 2 ^ 53" by linarith
  moreover have "(2::real) ^ 53 < 2 ^ 1024" by simp
  ultimately have "\<not> 2 ^ 1024 \<le> v" "\<not> v \<le> - (2 ^ 1024)" by linarith+
  then have "fl r = Val v"
    using False by (simp add: fl_def Let_def e_def [symmetric] u_def [symmetric] v_def [symmetric])
  with lo hi show ?thesis by blast
qed

lemma fl_Ints:
  assumes "r \<in> \<int>" "\<bar>r\<bar> < 2 ^ 53"
  shows "fl r = Val r"
proof -
  from assms(1) obtain n where n: "r = of_int n" by (auto elim: Ints_cases)
  with assms(2) have "\<bar>n\<bar> < 2 ^ 53"
    by (metis of_int_abs of_int_less_numeral_power_cancel_iff)
  from fl_between [of n r n, OF _ _ this this] n show ?thesis by auto
qed

lemma fl_exact:
  assumes r: "r = of_int m * 2 powr of_int k" and m: "\<bar>m\<bar> < 2 ^ 53"
    and k: "- 1074 \<le> k" "k \<le> 971"
  shows "fl r = Val r"
proof (cases "r = 0")
  case True
  then show ?thesis by (simp add: fl_def)
next
  case False
  define e where "e = max \<lfloor>log 2 \<bar>r\<bar>\<rfloor> (- 1022)"
  define u :: real where "u = 2 powr (of_int e - 52)"
  from m have mr: "\<bar>of_int m :: real\<bar> < 2 ^ 53"
    by (metis of_int_abs of_int_less_numeral_power_cancel_iff)
  have absr: "\<bar>r\<bar> = \<bar>of_int m\<bar> * 2 powr of_int k"
    by (simp add: r abs_mult)
  have "\<bar>r\<bar> < 2 ^ 53 * 2 powr of_int k"
    unfolding absr using mr by (simp add: mult_strict_right_mono)
  also have "\<dots> = 2 powr (of_int (k + 52) + 1)"
    by (simp add: powr_add)
  finally have "\<lfloor>log 2 \<bar>r\<bar>\<rfloor> \<le> k + 52" by (rule floor_log2_le [OF False])
  with k(1) have ek: "e \<le> k + 52" by (simp add: e_def)
  define j where "j = k + 52 - e"
  have j0: "0 \<le> j" using ek by (simp add: j_def)
  have "of_int k - (of_int e - 52) = (of_int j :: real)" by (simp add: j_def)
  then have "2 powr of_int k / u = 2 powr (of_int j)"
    by (simp add: u_def powr_diff [symmetric])
  then have "of_int m * (2 powr of_int k / u) = of_int m * (2 powr (of_int j) :: real)"
    by simp
  then have q: "r / u = of_int (m * 2 ^ nat j)"
    by (simp add: r two_powr_int [OF j0])
  have upos: "0 < u" by (simp add: u_def)
  have v: "of_int (roundEven (r / u)) * u = r"
    unfolding q roundEven_of_int using q upos by (simp add: field_simps)
  have "of_int k \<le> (971::real)" using k(2) by simp
  then have "2 powr of_int k \<le> (2::real) powr 971" by (rule powr_mono) simp
  then have "2 powr of_int k \<le> (2::real) ^ 971" by simp
  with mr have "\<bar>of_int m\<bar> * 2 powr of_int k < 2 ^ 53 * (2::real) ^ 971"
    by (intro mult_less_le_imp_less) simp_all
  then have "\<bar>r\<bar> < 2 ^ 1024" by (simp add: absr)
  then have "\<not> 2 ^ 1024 \<le> r" "\<not> r \<le> - (2 ^ 1024)" by linarith+
  then show ?thesis
    using False by (simp add: fl_def Let_def e_def [symmetric] u_def [symmetric] v)
qed



text \<open>The value of \<open>fl\<close> for a real whose binade is known.\<close>

lemma fl_eval:
  assumes "2 powr of_int e \<le> \<bar>r\<bar>" "\<bar>r\<bar> < 2 powr (of_int e + 1)" "- 1022 \<le> e"
  shows "fl r =
    (let u = 2 powr (of_int e - 52);
         v = of_int (roundEven (r / u)) * u
     in if 2 ^ 1024 \<le> v then PosInf else if v \<le> - (2 ^ 1024) then NegInf else Val v)"
proof -
  have "0 < (2::real) powr of_int e" by simp
  with assms(1) have pos: "0 < \<bar>r\<bar>" by linarith
  then have "r \<noteq> 0" by simp
  moreover from pos assms(1,2) have "\<lfloor>log 2 \<bar>r\<bar>\<rfloor> = e"
    by (simp add: floor_log_eq_powr_iff)
  ultimately show ?thesis
    using assms(3) by (simp add: fl_def Let_def max_def)
qed

section \<open>Horizontal lines with integer data\<close>

lemma fl_0 [simp]: "fl 0 = Val 0"
  by (simp add: fl_def)

lemma less_number_irrefl: "\<not> (a::number) < a"
  by (cases a) simp_all

lemma sqrt_square_numeral [simp]: "sqrt 4900 = 70" "sqrt 9 = 3" "sqrt 25 = 5"
  using real_sqrt_abs2 [of 70] real_sqrt_abs2 [of 3] real_sqrt_abs2 [of 5] by simp_all

text \<open>The literals that are not doubles round to a value between zero and one.\<close>

lemma fl_radians: "\<exists>d. fl 0.01745 = Val d \<and> 0 \<le> d \<and> d \<le> 1"
  using fl_between [of 0 "0.01745" 1] by simp

lemma fl_gravity: "\<exists>g. fl 0.06 = Val g \<and> 0 \<le> g \<and> g \<le> 1"
  using fl_between [of 0 "0.06" 1] by simp

lemma lineHeading_zero:
  assumes "angle l = Val 0"
  shows "lineHeading l = vec 1 0"
proof -
  from fl_radians obtain d where "fl 0.01745 = Val d" by blast
  then show ?thesis by (simp add: lineHeading_def assms fl_Ints)
qed

lemma unitVector_east: "unitVector (vec 1 0) = vec 1 0"
  by (simp add: unitVector_def magnitude_def fl_Ints)

text \<open>
  A horizontal line with integer data: centre \<open>(cx, cy)\<close>, half length \<open>h\<close>, angle zero.
\<close>

lemma lineEndPoints_horizontal:
  assumes "line.center l = vec cx cy" "len l = Val (2 * h)" "angle l = Val 0"
    and "cx \<in> \<int>" "cy \<in> \<int>" "h \<in> \<int>"
    and "\<bar>cx\<bar> \<le> 2 ^ 40" "\<bar>cy\<bar> \<le> 2 ^ 40" "\<bar>h\<bar> \<le> 2 ^ 25"
  shows "lineEndPoints l = (vec (cx + h) cy, vec (cx - h) cy)"
  using assms(4-)
  by (simp add: lineEndPoints_def lineHeading_zero [OF assms(3)] unitVector_east assms(1,2) fl_Ints)

lemma int_square_bound:
  fixes a :: real
  assumes "\<bar>a\<bar> \<le> 2 ^ 26"
  shows "\<bar>a * a\<bar> < 2 ^ 53"
proof -
  have "\<bar>a\<bar> * \<bar>a\<bar> \<le> 2 ^ 26 * 2 ^ 26"
    using assms by (intro mult_mono) simp_all
  then show ?thesis by (simp add: abs_mult)
qed

lemma magnitude_horizontal:
  assumes "a \<in> \<int>" "\<bar>a\<bar> \<le> 2 ^ 26"
  shows "magnitude (vec a 0) = Val \<bar>a\<bar>" "magnitude (vec 0 a) = Val \<bar>a\<bar>"
  using assms int_square_bound [OF assms(2)]
  by (simp_all add: magnitude_def fl_Ints)

lemma distance_vertical:
  assumes "b \<in> \<int>" "d \<in> \<int>" "\<bar>b\<bar> \<le> 2 ^ 40" "\<bar>d\<bar> \<le> 2 ^ 40" "\<bar>b - d\<bar> \<le> 2 ^ 26"
    and "a \<in> \<int>" "\<bar>a\<bar> \<le> 2 ^ 40"
  shows "distance (vec a b) (vec a d) = Val \<bar>b - d\<bar>"
  using assms int_square_bound [OF assms(5)]
  by (simp add: distance_def fl_Ints)

lemma lineUnitVector_horizontal:
  assumes "line.center l = vec cx cy" "len l = Val (2 * h)" "angle l = Val 0"
    and "cx \<in> \<int>" "cy \<in> \<int>" "h \<in> \<int>"
    and "\<bar>cx\<bar> \<le> 2 ^ 40" "\<bar>cy\<bar> \<le> 2 ^ 40" "\<bar>h\<bar> \<le> 2 ^ 25" "0 < h"
  shows "lineUnitVector l = vec (- 1) 0"
proof -
  have v: "vectorBetween (fst (lineEndPoints l)) (snd (lineEndPoints l)) = vec (- (2 * h)) 0"
    using assms(4-) by (simp add: lineEndPoints_horizontal [OF assms(1-9)] vectorBetween_def fl_Ints)
  have "\<bar>- (2 * h)\<bar> \<le> 2 ^ 26" using assms(9) by simp
  moreover have "- (2 * h) \<in> \<int>" using assms(6) by simp
  ultimately have m: "magnitude (vec (- (2 * h)) 0) = Val \<bar>- (2 * h)\<bar>"
    by (rule magnitude_horizontal(1) [rotated])
  show ?thesis
    using assms(10)
    by (simp add: lineUnitVector_def v unitVector_def m fl_Ints)
qed

lemma projection_horizontal:
  assumes "line.center l = vec cx cy" "len l = Val (2 * h)" "angle l = Val 0"
    and "cx \<in> \<int>" "cy \<in> \<int>" "h \<in> \<int>"
    and "\<bar>cx\<bar> \<le> 2 ^ 40" "\<bar>cy\<bar> \<le> 2 ^ 40" "\<bar>h\<bar> \<le> 2 ^ 25" "0 < h"
    and "circle.center c = vec px py" "px \<in> \<int>" "py \<in> \<int>" "\<bar>px\<bar> \<le> 2 ^ 40" "\<bar>py\<bar> \<le> 2 ^ 40"
  shows "projection c l = Val (cx + h - px)"
  using assms(4-10) assms(12-)
  by (simp add: projection_def lineEndPoints_horizontal [OF assms(1-9)]
      lineUnitVector_horizontal [OF assms(1-10)] assms(11) vectorBetween_def dotProduct_def fl_Ints)

lemma closest_horizontal:
  assumes "line.center l = vec cx cy" "len l = Val (2 * h)" "angle l = Val 0"
    and "cx \<in> \<int>" "cy \<in> \<int>" "h \<in> \<int>"
    and "\<bar>cx\<bar> \<le> 2 ^ 40" "\<bar>cy\<bar> \<le> 2 ^ 40" "\<bar>h\<bar> \<le> 2 ^ 25" "0 < h"
    and "circle.center c = vec px py" "px \<in> \<int>" "py \<in> \<int>" "\<bar>px\<bar> \<le> 2 ^ 40" "\<bar>py\<bar> \<le> 2 ^ 40"
  shows "pointOnLineClosestToCircle c l =
     vec (if cx + h \<le> px then cx + h else if px \<le> cx - h then cx - h else px) cy"
  using assms(4-10) assms(12-)
  by (simp add: pointOnLineClosestToCircle_def projection_horizontal [OF assms]
      lineEndPoints_horizontal [OF assms(1-9)] lineUnitVector_horizontal [OF assms(1-10)]
      assms(2) fl_Ints)

section \<open>The closest point on a line\<close>

lemma fl_absorbed_half_length:
  "fl 1000000000000000035 = Val 1000000000000000000"
  "fl 999999999999999965 = Val 1000000000000000000"
  by (subst fl_eval [where e = 59]; simp add: roundEven_def Let_def)+


lemma lineEndPoints_absorbed:
  "lineEndPoints \<lparr>line.center = vec 1000000000000000000 0, len = Val 70, angle = Val 0,
     rotateSpeed = Val (1 / 2)\<rparr>
   = (vec 1000000000000000000 0, vec 1000000000000000000 0)"
  by (simp add: lineEndPoints_def lineHeading_zero unitVector_east fl_Ints fl_absorbed_half_length)

text \<open>
  Claim C1 says that for a point at a perpendicular offset of the middle of the segment
  the result is the centre of the segment. The line of length 70 centred at
  \<open>(10^18, 0)\<close> is a counterexample: the sums \<open>10^18 + 35\<close> and \<open>10^18 - 35\<close> round to
  \<open>10^18\<close>, so both ends are the centre, the unit vector along the line is \<open>(NaN, NaN)\<close>,
  no comparison of the projection holds, and the closest point of the circle centred at
  \<open>(10^18, 5)\<close> is \<open>(NaN, NaN)\<close>.
\<close>

theorem midpoint_is_not_center:
  "len \<lparr>line.center = vec 1000000000000000000 0, len = Val 70, angle = Val 0,
     rotateSpeed = Val (1 / 2)\<rparr> = Val 70 \<and>
   pointOnLineClosestToCircle
     \<lparr>circle.center = vec 1000000000000000000 5, velocity = vec 0 0, radius = Val 5\<rparr>
     \<lparr>line.center = vec 1000000000000000000 0, len = Val 70, angle = Val 0,
      rotateSpeed = Val (1 / 2)\<rparr>
   = nanvec \<and>
   nanvec \<noteq> vec 1000000000000000000 0"
  by (simp add: pointOnLineClosestToCircle_def projection_def lineUnitVector_def
      lineEndPoints_absorbed vectorBetween_def unitVector_def magnitude_def dotProduct_def fl_Ints)

text \<open>
  Claim C1, as amended. For a line of positive length and any circle,
  \<open>pointOnLineClosestToCircle\<close> follows the clamped projection: with \<open>proj\<close> the
  projection of the vector from the first end to the circle's centre on the unit vector
  along the line, the result is the first end when \<open>proj \<le> 0\<close>, the second end when
  \<open>proj \<ge> len\<close>, and otherwise the first end plus the unit vector scaled by \<open>proj\<close>.
  For a line at the angle zero whose centre has integer coordinates up to \<open>2^40\<close> and
  whose length is twice an integer up to \<open>2^25\<close>, and a circle centred at an integer
  height above or below the middle of the line, the result is the centre of the line.
\<close>

theorem closest_point_policy:
  "(\<forall>L. len l = Val L \<and> 0 < L \<longrightarrow>
     (let end1 = fst (lineEndPoints l);
          end2 = snd (lineEndPoints l);
          unit = unitVector (vectorBetween end1 end2);
          proj = dotProduct (vectorBetween end1 (circle.center c)) unit
      in (proj \<le> Val 0 \<longrightarrow> pointOnLineClosestToCircle c l = end1) \<and>
         (proj \<ge> len l \<longrightarrow> pointOnLineClosestToCircle c l = end2) \<and>
         (\<not> proj \<le> Val 0 \<and> \<not> proj \<ge> len l \<longrightarrow>
            pointOnLineClosestToCircle c l =
              \<lparr>x = x end1 + x unit * proj, y = y end1 + y unit * proj\<rparr>))) \<and>
   (\<forall>cx cy h py.
      line.center l = vec cx cy \<and> len l = Val (2 * h) \<and> angle l = Val 0 \<and>
      cx \<in> \<int> \<and> cy \<in> \<int> \<and> h \<in> \<int> \<and> py \<in> \<int> \<and>
      \<bar>cx\<bar> \<le> 2 ^ 40 \<and> \<bar>cy\<bar> \<le> 2 ^ 40 \<and> \<bar>py\<bar> \<le> 2 ^ 40 \<and> 0 < h \<and> h \<le> 2 ^ 25 \<and>
      circle.center c = vec cx py
      \<longrightarrow> pointOnLineClosestToCircle c l = line.center l)"
proof -
  define u where "u = unitVector (vectorBetween (fst (lineEndPoints l)) (snd (lineEndPoints l)))"
  define p where "p = dotProduct (vectorBetween (fst (lineEndPoints l)) (circle.center c)) u"
  have lu: "lineUnitVector l = u"
    by (simp add: u_def lineUnitVector_def)
  have pr: "projection c l = p"
    by (simp add: p_def projection_def lu)
  have policy: "(let end1 = fst (lineEndPoints l);
          end2 = snd (lineEndPoints l);
          unit = unitVector (vectorBetween end1 end2);
          proj = dotProduct (vectorBetween end1 (circle.center c)) unit
      in (proj \<le> Val 0 \<longrightarrow> pointOnLineClosestToCircle c l = end1) \<and>
         (proj \<ge> len l \<longrightarrow> pointOnLineClosestToCircle c l = end2) \<and>
         (\<not> proj \<le> Val 0 \<and> \<not> proj \<ge> len l \<longrightarrow>
            pointOnLineClosestToCircle c l =
              \<lparr>x = x end1 + x unit * proj, y = y end1 + y unit * proj\<rparr>))"
    if L: "len l = Val L" "0 < L" for L
  proof -
    have both: "\<not> (p \<le> Val 0 \<and> p \<ge> Val L)"
      using L(2) by (cases p) auto
    then have "(p \<le> Val 0 \<longrightarrow> pointOnLineClosestToCircle c l = fst (lineEndPoints l)) \<and>
        (p \<ge> Val L \<longrightarrow> pointOnLineClosestToCircle c l = snd (lineEndPoints l)) \<and>
        (\<not> p \<le> Val 0 \<and> \<not> p \<ge> Val L \<longrightarrow>
           pointOnLineClosestToCircle c l =
             \<lparr>x = x (fst (lineEndPoints l)) + x u * p, y = y (fst (lineEndPoints l)) + y u * p\<rparr>)"
      by (auto simp: pointOnLineClosestToCircle_def pr lu L(1) Let_def)
    then show ?thesis
      unfolding Let_def L(1) p_def u_def .
  qed
  have mid: "pointOnLineClosestToCircle c l = line.center l"
    if "line.center l = vec cx cy" "len l = Val (2 * h)" "angle l = Val 0"
      "cx \<in> \<int>" "cy \<in> \<int>" "h \<in> \<int>" "py \<in> \<int>"
      "\<bar>cx\<bar> \<le> 2 ^ 40" "\<bar>cy\<bar> \<le> 2 ^ 40" "\<bar>py\<bar> \<le> 2 ^ 40" "0 < h" "h \<le> 2 ^ 25"
      "circle.center c = vec cx py"
    for cx cy h py
  proof -
    from that(11,12) have h: "\<bar>h\<bar> \<le> 2 ^ 25" by simp
    from closest_horizontal [OF that(1-6) that(8,9) h that(11) that(13) that(4) that(7) that(8) that(10)]
    show ?thesis using that(11) by (simp add: that(1))
  qed
  from policy mid show ?thesis by blast
qed

theorem closest_point_policy_witness:
  "len (makeLine (vec 100 100)) = Val 70 \<and> (0::real) < 70 \<and>
   pointOnLineClosestToCircle \<lparr>circle.center = vec 200 97, velocity = vec 0 2, radius = Val 5\<rparr>
     (makeLine (vec 100 100)) = vec 135 100 \<and>
   pointOnLineClosestToCircle \<lparr>circle.center = vec 0 97, velocity = vec 0 2, radius = Val 5\<rparr>
     (makeLine (vec 100 100)) = vec 65 100 \<and>
   pointOnLineClosestToCircle \<lparr>circle.center = vec 110 97, velocity = vec 0 2, radius = Val 5\<rparr>
     (makeLine (vec 100 100)) = vec 110 100 \<and>
   pointOnLineClosestToCircle \<lparr>circle.center = vec 100 95, velocity = vec 0 2, radius = Val 5\<rparr>
     (makeLine (vec 100 100)) = vec 100 100"
proof -
  let ?l = "makeLine (vec 100 100)"
  have l: "line.center ?l = vec 100 100" "len ?l = Val (2 * 35)" "angle ?l = Val 0"
    by (simp_all add: makeLine_def)
  have ends: "lineEndPoints ?l = (vec 135 100, vec 65 100)"
    using lineEndPoints_horizontal [OF l] by simp
  have u: "unitVector (vec (- 70) 0) = vec (- 1) 0"
    by (simp add: unitVector_def magnitude_def fl_Ints)
  have L: "len ?l = Val 70 \<and> (0::real) < 70" by (simp add: makeLine_def)
  note pol = closest_point_policy [of ?l, THEN conjunct1, rule_format, OF L]
  have 1: "pointOnLineClosestToCircle \<lparr>circle.center = vec 200 97, velocity = vec 0 2, radius = Val 5\<rparr> ?l
      = vec 135 100"
    using pol [of "\<lparr>circle.center = vec 200 97, velocity = vec 0 2, radius = Val 5\<rparr>"]
    by (simp add: Let_def ends u vectorBetween_def dotProduct_def fl_Ints)
  have 2: "pointOnLineClosestToCircle \<lparr>circle.center = vec 0 97, velocity = vec 0 2, radius = Val 5\<rparr> ?l
      = vec 65 100"
    using pol [of "\<lparr>circle.center = vec 0 97, velocity = vec 0 2, radius = Val 5\<rparr>"]
    by (simp add: Let_def ends u vectorBetween_def dotProduct_def fl_Ints L)
  have 3: "pointOnLineClosestToCircle \<lparr>circle.center = vec 110 97, velocity = vec 0 2, radius = Val 5\<rparr> ?l
      = vec 110 100"
    using pol [of "\<lparr>circle.center = vec 110 97, velocity = vec 0 2, radius = Val 5\<rparr>"]
    by (simp add: Let_def ends u vectorBetween_def dotProduct_def fl_Ints L)
  have "line.center ?l = vec 100 100 \<and> len ?l = Val (2 * 35) \<and> angle ?l = Val 0 \<and>
      (100::real) \<in> \<int> \<and> (100::real) \<in> \<int> \<and> (35::real) \<in> \<int> \<and> (95::real) \<in> \<int> \<and>
      \<bar>100::real\<bar> \<le> 2 ^ 40 \<and> \<bar>100::real\<bar> \<le> 2 ^ 40 \<and> \<bar>95::real\<bar> \<le> 2 ^ 40 \<and> (0::real) < 35 \<and>
      (35::real) \<le> 2 ^ 25 \<and>
      circle.center \<lparr>circle.center = vec 100 95, velocity = vec 0 2, radius = Val 5\<rparr> = vec 100 95"
    by (simp add: makeLine_def)
  from closest_point_policy
    [of ?l "\<lparr>circle.center = vec 100 95, velocity = vec 0 2, radius = Val 5\<rparr>",
      THEN conjunct2, rule_format, OF this]
  have 4: "pointOnLineClosestToCircle \<lparr>circle.center = vec 100 95, velocity = vec 0 2, radius = Val 5\<rparr> ?l
      = vec 100 100"
    by (simp add: makeLine_def)
  from L 1 2 3 4 show ?thesis by (intro conjI) simp_all
qed

section \<open>Collision detection and the loop that clears the line\<close>

lemma intersecting_flat:
  assumes "line.center l = vec cx cy" "len l = Val (2 * h)" "angle l = Val 0"
    and "cx \<in> \<int>" "cy \<in> \<int>" "h \<in> \<int>"
    and "\<bar>cx\<bar> \<le> 2 ^ 40" "\<bar>cy\<bar> \<le> 2 ^ 40" "\<bar>h\<bar> \<le> 2 ^ 25" "0 < h"
    and "circle.center c = vec px py" "px \<in> \<int>" "py \<in> \<int>" "\<bar>px\<bar> \<le> 2 ^ 40" "\<bar>py\<bar> \<le> 2 ^ 40"
    and "radius c = Val r" "\<bar>px - cx\<bar> < h" "\<bar>py - cy\<bar> \<le> 2 ^ 26"
  shows "pointOnLineClosestToCircle c l = vec px cy"
    and "distance (circle.center c) (pointOnLineClosestToCircle c l) = Val \<bar>py - cy\<bar>"
    and "isLineIntersectingCircle c l \<longleftrightarrow> \<bar>py - cy\<bar> < r"
proof -
  from assms(17) have "\<not> cx + h \<le> px" "\<not> px \<le> cx - h" by linarith+
  then show q: "pointOnLineClosestToCircle c l = vec px cy"
    by (simp add: closest_horizontal [OF assms(1-15)])
  show d: "distance (circle.center c) (pointOnLineClosestToCircle c l) = Val \<bar>py - cy\<bar>"
    unfolding q assms(11)
    by (rule distance_vertical [OF assms(13) assms(5) assms(15) assms(8) assms(18) assms(12) assms(14)])
  show "isLineIntersectingCircle c l \<longleftrightarrow> \<bar>py - cy\<bar> < r"
    by (simp add: isLineIntersectingCircle_def d assms(16))
qed

lemma makeLine_fields:
  "line.center (makeLine (vec cx cy)) = vec cx cy"
  "len (makeLine (vec cx cy)) = Val (2 * 35)"
  "angle (makeLine (vec cx cy)) = Val 0"
  by (simp_all add: makeLine_def)

text \<open>A circle of radius 5 over the flat of the line that \<open>makeLine\<close> builds at \<open>(100, 100)\<close>.\<close>

lemma over_the_flat:
  assumes "py \<in> \<int>" "\<bar>py\<bar> \<le> 1000"
  shows "pointOnLineClosestToCircle \<lparr>circle.center = vec 100 py, velocity = v, radius = Val 5\<rparr>
           (makeLine (vec 100 100)) = vec 100 100"
    and "distance (vec 100 py)
           (pointOnLineClosestToCircle \<lparr>circle.center = vec 100 py, velocity = v, radius = Val 5\<rparr>
             (makeLine (vec 100 100))) = Val \<bar>py - 100\<bar>"
    and "isLineIntersectingCircle \<lparr>circle.center = vec 100 py, velocity = v, radius = Val 5\<rparr>
           (makeLine (vec 100 100)) \<longleftrightarrow> \<bar>py - 100\<bar> < 5"
  using intersecting_flat [OF makeLine_fields, of 100 100
      "\<lparr>circle.center = vec 100 py, velocity = v, radius = Val 5\<rparr>" 100 py 5] assms
  by simp_all

text \<open>
  Claim C2. \<open>isLineIntersectingCircle\<close> is true exactly when the distance from the
  circle's centre to the closest point on the line is less than the radius; when the
  distance equals the radius it is false.
\<close>

theorem isIntersecting_strict:
  "(isLineIntersectingCircle c l \<longleftrightarrow>
      distance (circle.center c) (pointOnLineClosestToCircle c l) < radius c) \<and>
   (distance (circle.center c) (pointOnLineClosestToCircle c l) = radius c \<longrightarrow>
      \<not> isLineIntersectingCircle c l) \<and>
   (\<forall>d r. distance (circle.center c) (pointOnLineClosestToCircle c l) = Val d \<and> radius c = Val r
      \<longrightarrow> (isLineIntersectingCircle c l \<longleftrightarrow> d < r))"
  by (simp add: isLineIntersectingCircle_def less_number_irrefl)

theorem isIntersecting_strict_witness:
  "distance (vec 100 95)
     (pointOnLineClosestToCircle \<lparr>circle.center = vec 100 95, velocity = vec 0 2, radius = Val 5\<rparr>
        (makeLine (vec 100 100))) = Val 5 \<and>
   \<not> isLineIntersectingCircle \<lparr>circle.center = vec 100 95, velocity = vec 0 2, radius = Val 5\<rparr>
        (makeLine (vec 100 100)) \<and>
   distance (vec 100 97)
     (pointOnLineClosestToCircle \<lparr>circle.center = vec 100 97, velocity = vec 0 2, radius = Val 5\<rparr>
        (makeLine (vec 100 100))) = Val 3 \<and>
   isLineIntersectingCircle \<lparr>circle.center = vec 100 97, velocity = vec 0 2, radius = Val 5\<rparr>
        (makeLine (vec 100 100))"
proof -
  let ?l = "makeLine (vec 100 100)"
  let ?c = "\<lparr>circle.center = vec 100 95, velocity = vec 0 2, radius = Val 5\<rparr>"
  let ?c' = "\<lparr>circle.center = vec 100 97, velocity = vec 0 2, radius = Val 5\<rparr>"
  have d: "distance (circle.center ?c) (pointOnLineClosestToCircle ?c ?l) = Val 5"
    using over_the_flat(2) [of 95 "vec 0 2"] by simp
  have d': "distance (circle.center ?c') (pointOnLineClosestToCircle ?c' ?l) = Val 3"
    using over_the_flat(2) [of 97 "vec 0 2"] by simp
  from isIntersecting_strict [of ?c ?l] d have "\<not> isLineIntersectingCircle ?c ?l"
    by simp
  moreover from isIntersecting_strict [of ?c' ?l] d' have "isLineIntersectingCircle ?c' ?l"
    by simp
  ultimately show ?thesis using d d' by simp
qed

lemma clearLine_correct:
  assumes "clearLine c l = Some c'"
  shows "\<not> isLineIntersectingCircle c' l"
  by (rule clearLine.raw_induct [where P = "\<lambda>c l c'. \<not> isLineIntersectingCircle c' l", OF _ assms])
    (auto split: if_splits)

lemma clearLine_keeps:
  assumes "clearLine c l = Some c'"
  shows "radius c' = radius c \<and> velocity c' = velocity c"
  by (rule clearLine.raw_induct
      [where P = "\<lambda>c l c'. radius c' = radius c \<and> velocity c' = velocity c", OF _ assms])
    (auto simp: moveCircle_def split: if_splits)

lemma clearLine_diverges:
  assumes "isLineIntersectingCircle c l" "moveCircle c = c"
  shows "clearLine c l = None"
proof (rule ccontr)
  assume "clearLine c l \<noteq> None"
  then obtain c' where some: "clearLine c l = Some c'" by blast
  have "\<not> (isLineIntersectingCircle c l \<and> moveCircle c = c)"
    by (rule clearLine.raw_induct
        [where P = "\<lambda>c l c'. \<not> (isLineIntersectingCircle c l \<and> moveCircle c = c)", OF _ some])
      (auto split: if_splits)
  with assms show False by simp
qed

text \<open>
  Claim C5. Whenever \<open>bounceCircle\<close> returns, the circle no longer intersects the line
  it bounced off.
\<close>

theorem bounce_clears_line:
  assumes "bounceCircle c l = Some c'"
  shows "\<not> isLineIntersectingCircle c' l"
  using assms unfolding bounceCircle_def by (rule clearLine_correct)

lemma normal_over_the_flat:
  assumes "py \<in> \<int>" "\<bar>py\<bar> \<le> 1000" "py < 100"
  shows "bounceLineNormal \<lparr>circle.center = vec 100 py, velocity = v, radius = Val 5\<rparr>
           (makeLine (vec 100 100)) = vec 0 (- 1)"
proof -
  from assms have "\<bar>py - 100\<bar> \<le> 2 ^ 26" "py - 100 \<in> \<int>" by simp_all
  note m = magnitude_horizontal(2) [OF this(2,1)]
  from assms(3) have q: "(py - 100) / (100 - py) = - 1"
    by (simp add: field_simps)
  from m assms show ?thesis
    by (simp add: bounceLineNormal_def circleToClosestPointOnLineVector_def over_the_flat(1)
        vectorBetween_def unitVector_def fl_Ints q)
qed

lemma reflect_example:
  "reflectVelocity \<lparr>circle.center = vec 100 97, velocity = vec 0 2, radius = Val 5\<rparr>
     (makeLine (vec 100 100))
   = \<lparr>circle.center = vec 100 97, velocity = vec 0 (- 2), radius = Val 5\<rparr>"
  by (simp add: reflectVelocity_def normal_over_the_flat dotProduct_def Let_def fl_Ints)

lemma bounce_example:
  "bounceCircle \<lparr>circle.center = vec 100 97, velocity = vec 0 2, radius = Val 5\<rparr>
     (makeLine (vec 100 100))
   = Some \<lparr>circle.center = vec 100 95, velocity = vec 0 (- 2), radius = Val 5\<rparr>"
  unfolding bounceCircle_def reflect_example
  apply (subst clearLine.simps)
  apply (simp add: over_the_flat(3) moveCircle_def fl_Ints)
  apply (subst clearLine.simps)
  apply (simp add: over_the_flat(3))
  done

theorem bounce_clears_line_witness:
  "bounceCircle \<lparr>circle.center = vec 100 97, velocity = vec 0 2, radius = Val 5\<rparr>
     (makeLine (vec 100 100))
   = Some \<lparr>circle.center = vec 100 95, velocity = vec 0 (- 2), radius = Val 5\<rparr> \<and>
   \<not> isLineIntersectingCircle \<lparr>circle.center = vec 100 95, velocity = vec 0 (- 2), radius = Val 5\<rparr>
     (makeLine (vec 100 100))"
  using bounce_clears_line [OF bounce_example] bounce_example by simp

section \<open>When the loop never ends\<close>

lemma reflect_rest:
  "reflectVelocity \<lparr>circle.center = vec 100 97, velocity = vec 0 0, radius = Val 5\<rparr>
     (makeLine (vec 100 100))
   = \<lparr>circle.center = vec 100 97, velocity = vec 0 0, radius = Val 5\<rparr>"
  by (simp add: reflectVelocity_def normal_over_the_flat dotProduct_def Let_def fl_Ints)

text \<open>
  Claim C4 says that the loop of \<open>bounceCircle\<close> ends for every circle that intersects
  the line, the separation growing at each iteration. The circle at rest centred at
  \<open>(100, 97)\<close>, of radius 5, intersects the line made at \<open>(100, 100)\<close>: its velocity is
  zero after the reflection, no move changes its centre, and \<open>bounceCircle\<close> never
  returns.
\<close>

theorem bounce_at_rest_never_returns:
  "isLineIntersectingCircle \<lparr>circle.center = vec 100 97, velocity = vec 0 0, radius = Val 5\<rparr>
     (makeLine (vec 100 100)) \<and>
   bounceCircle \<lparr>circle.center = vec 100 97, velocity = vec 0 0, radius = Val 5\<rparr>
     (makeLine (vec 100 100)) = None"
proof -
  let ?c = "\<lparr>circle.center = vec 100 97, velocity = vec 0 0, radius = Val 5\<rparr>"
  let ?l = "makeLine (vec 100 100)"
  have i: "isLineIntersectingCircle ?c ?l"
    by (simp add: over_the_flat(3))
  have m: "moveCircle ?c = ?c" by (simp add: moveCircle_def fl_Ints)
  from clearLine_diverges [OF i m] i show ?thesis
    by (simp add: bounceCircle_def reflect_rest)
qed

lemma fl_tiny:
  "fl (1 / 2 ^ 60) = Val (1 / 2 ^ 60)"
  "fl (- (1 / 2 ^ 60)) = Val (- (1 / 2 ^ 60))"
  "fl (1 / 2 ^ 59) = Val (1 / 2 ^ 59)"
  "fl (- (1 / 2 ^ 59)) = Val (- (1 / 2 ^ 59))"
     apply (rule fl_exact [where m = 1 and k = "- 60"]; simp add: powr_neg_numeral)
    apply (rule fl_exact [where m = "- 1" and k = "- 60"]; simp add: powr_neg_numeral)
   apply (rule fl_exact [where m = 1 and k = "- 59"]; simp add: powr_neg_numeral)
  apply (rule fl_exact [where m = "- 1" and k = "- 59"]; simp add: powr_neg_numeral)
  done

lemma fl_absorbed_velocity: "fl (97 + - (1 / 2 ^ 60)) = Val 97"
  by (subst fl_eval [where e = 6]) (simp_all add: roundEven_def Let_def powr_neg_numeral)

lemmas fl_tiny_numerals = fl_tiny [simplified] fl_absorbed_velocity [simplified]

lemma reflect_slow:
  "reflectVelocity \<lparr>circle.center = vec 100 97, velocity = vec 0 (1 / 2 ^ 60), radius = Val 5\<rparr>
     (makeLine (vec 100 100))
   = \<lparr>circle.center = vec 100 97, velocity = vec 0 (- (1 / 2 ^ 60)), radius = Val 5\<rparr>"
  by (simp add: reflectVelocity_def normal_over_the_flat dotProduct_def Let_def fl_Ints
      fl_tiny_numerals)

text \<open>
  A velocity other than zero does not save the loop: with the velocity \<open>(0, 2^-60)\<close> the
  reflected velocity is \<open>(0, - 2^-60)\<close>, and \<open>97 - 2^-60\<close> rounds to \<open>97\<close>.
\<close>

lemma bounce_too_slow_never_returns:
  "isLineIntersectingCircle \<lparr>circle.center = vec 100 97, velocity = vec 0 (1 / 2 ^ 60), radius = Val 5\<rparr>
     (makeLine (vec 100 100)) \<and>
   bounceCircle \<lparr>circle.center = vec 100 97, velocity = vec 0 (1 / 2 ^ 60), radius = Val 5\<rparr>
     (makeLine (vec 100 100)) = None"
proof -
  let ?c = "\<lparr>circle.center = vec 100 97, velocity = vec 0 (- (1 / 2 ^ 60)), radius = Val 5\<rparr>"
  let ?l = "makeLine (vec 100 100)"
  have i: "isLineIntersectingCircle ?c ?l"
    by (simp add: over_the_flat(3))
  have m: "moveCircle ?c = ?c" by (simp add: moveCircle_def fl_Ints fl_tiny_numerals)
  have i0: "isLineIntersectingCircle
      \<lparr>circle.center = vec 100 97, velocity = vec 0 (1 / 2 ^ 60), radius = Val 5\<rparr> ?l"
    by (simp add: over_the_flat(3))
  show ?thesis
    unfolding bounceCircle_def reflect_slow
    using clearLine_diverges [OF i m] i0 by (intro conjI)
qed

section \<open>The arguments of \<open>unitVector\<close>\<close>

text \<open>
  Claim C6 says that no call of \<open>unitVector\<close> gets the zero vector and that
  \<open>bounceLineNormal\<close> guards against a centre that coincides with the closest point.
  The code has no such guard: the circle centred at \<open>(100, 100)\<close> intersects the line
  made there, the vector passed to \<open>unitVector\<close> is the zero vector, and the normal is
  \<open>(NaN, NaN)\<close>.
\<close>

theorem unitVector_called_on_zero_vector:
  "isLineIntersectingCircle \<lparr>circle.center = vec 100 100, velocity = vec 0 2, radius = Val 5\<rparr>
     (makeLine (vec 100 100)) \<and>
   circleToClosestPointOnLineVector \<lparr>circle.center = vec 100 100, velocity = vec 0 2, radius = Val 5\<rparr>
     (makeLine (vec 100 100)) = vec 0 0 \<and>
   bounceLineNormal \<lparr>circle.center = vec 100 100, velocity = vec 0 2, radius = Val 5\<rparr>
     (makeLine (vec 100 100)) = nanvec"
  by (simp add: over_the_flat bounceLineNormal_def circleToClosestPointOnLineVector_def
      vectorBetween_def unitVector_def magnitude_def fl_Ints)

lemma projection_velocity [simp]: "projection (c\<lparr>velocity := v\<rparr>) l = projection c l"
  by (simp add: projection_def)

lemma closest_velocity [simp]:
  "pointOnLineClosestToCircle (c\<lparr>velocity := v\<rparr>) l = pointOnLineClosestToCircle c l"
  by (simp add: pointOnLineClosestToCircle_def Let_def)

text \<open>
  Claim C6, as amended. \<open>bounceLineNormal\<close> passes to \<open>unitVector\<close> the vector from
  the closest point on the line to the centre of the circle, with no guard: when the
  centre, with finite coordinates, is the closest point, the argument is the zero vector
  and the normal is \<open>(NaN, NaN)\<close>. The velocity is not passed to \<open>unitVector\<close>: neither
  the normal nor the closest point depends on it.
\<close>

theorem unitVector_arguments:
  "bounceLineNormal c l =
     unitVector (vectorBetween (pointOnLineClosestToCircle c l) (circle.center c)) \<and>
   (\<forall>px py. circle.center c = vec px py \<and> pointOnLineClosestToCircle c l = circle.center c \<longrightarrow>
      circleToClosestPointOnLineVector c l = vec 0 0 \<and> bounceLineNormal c l = nanvec) \<and>
   (\<forall>v. bounceLineNormal (c\<lparr>velocity := v\<rparr>) l = bounceLineNormal c l) \<and>
   (\<forall>v. pointOnLineClosestToCircle (c\<lparr>velocity := v\<rparr>) l = pointOnLineClosestToCircle c l)"
  by (simp add: bounceLineNormal_def circleToClosestPointOnLineVector_def vectorBetween_def
      unitVector_def magnitude_def)

theorem unitVector_arguments_witness:
  "circle.center \<lparr>circle.center = vec 100 100, velocity = vec 0 2, radius = Val 5\<rparr> = vec 100 100 \<and>
   pointOnLineClosestToCircle \<lparr>circle.center = vec 100 100, velocity = vec 0 2, radius = Val 5\<rparr>
     (makeLine (vec 100 100)) = vec 100 100 \<and>
   bounceLineNormal \<lparr>circle.center = vec 100 100, velocity = vec 0 2, radius = Val 5\<rparr>
     (makeLine (vec 100 100)) = nanvec"
proof -
  let ?c = "\<lparr>circle.center = vec 100 100, velocity = vec 0 2, radius = Val 5\<rparr>"
  let ?l = "makeLine (vec 100 100)"
  have q: "pointOnLineClosestToCircle ?c ?l = vec 100 100"
    by (simp add: over_the_flat(1))
  then have "circle.center ?c = vec 100 100 \<and> pointOnLineClosestToCircle ?c ?l = circle.center ?c"
    by simp
  from unitVector_arguments [of ?c ?l, THEN conjunct2, THEN conjunct1, rule_format, OF this] q
  show ?thesis by simp
qed

section \<open>Reflection of the velocity\<close>











section \<open>The end points of a line\<close>





section \<open>The world bounds\<close>

text \<open>
  Claim C10. A circle is in the world exactly when its centre is strictly inside the
  world rectangle grown by the radius on all four sides; a centre on the boundary of
  the grown rectangle is out of the world. The far sides are the sums of a dimension and
  the radius as the code computes them, which are the exact sums for integers below
  \<open>2^53\<close>.
\<close>

theorem isCircleInWorld_strict:
  assumes "circle.center c = vec px py" "radius c = Val r" "worldDimensions = vec w h"
  shows
    "(\<forall>sx sy. Val w + Val r = Val sx \<and> Val h + Val r = Val sy \<longrightarrow>
        (isCircleInWorld c worldDimensions \<longleftrightarrow>
           - r < px \<and> px < sx \<and> - r < py \<and> py < sy) \<and>
        (px = - r \<or> px = sx \<or> py = - r \<or> py = sy \<longrightarrow>
           \<not> isCircleInWorld c worldDimensions)) \<and>
     (w \<in> \<int> \<and> h \<in> \<int> \<and> r \<in> \<int> \<and> \<bar>w + r\<bar> < 2 ^ 53 \<and> \<bar>h + r\<bar> < 2 ^ 53 \<longrightarrow>
        (isCircleInWorld c worldDimensions \<longleftrightarrow>
           - r < px \<and> px < w + r \<and> - r < py \<and> py < h + r) \<and>
        (px = - r \<or> px = w + r \<or> py = - r \<or> py = h + r \<longrightarrow>
           \<not> isCircleInWorld c worldDimensions))"
proof -
  have 1: "(isCircleInWorld c worldDimensions \<longleftrightarrow>
           - r < px \<and> px < sx \<and> - r < py \<and> py < sy) \<and>
        (px = - r \<or> px = sx \<or> py = - r \<or> py = sy \<longrightarrow>
           \<not> isCircleInWorld c worldDimensions)"
    if "Val w + Val r = Val sx" "Val h + Val r = Val sy" for sx sy
  proof -
    have "isCircleInWorld c worldDimensions \<longleftrightarrow>
        - Val r < Val px \<and> Val px < Val w + Val r \<and> - Val r < Val py \<and> Val py < Val h + Val r"
      by (simp add: isCircleInWorld_def assms del: plus_number.simps)
    then show ?thesis
      unfolding that by auto
  qed
  have 2: "Val w + Val r = Val (w + r) \<and> Val h + Val r = Val (h + r)"
    if "w \<in> \<int> \<and> h \<in> \<int> \<and> r \<in> \<int> \<and> \<bar>w + r\<bar> < 2 ^ 53 \<and> \<bar>h + r\<bar> < 2 ^ 53"
    using that by (simp add: fl_Ints)
  from 1 2 show ?thesis by blast
qed

theorem isCircleInWorld_strict_witness:
  "\<not> isCircleInWorld \<lparr>circle.center = vec 305 40, velocity = vec 1 2, radius = Val 5\<rparr> (vec 300 300) \<and>
   \<not> isCircleInWorld \<lparr>circle.center = vec (- 5) 40, velocity = vec 1 2, radius = Val 5\<rparr> (vec 300 300) \<and>
   isCircleInWorld \<lparr>circle.center = vec 304 (- 4), velocity = vec 1 2, radius = Val 5\<rparr> (vec 300 300)"
proof -
  have s: "Val 300 + Val 5 = Val 305 \<and> Val 300 + Val 5 = Val 305"
    by (simp add: fl_Ints)
  note t = isCircleInWorld_strict [THEN conjunct1, rule_format, OF _ _ _ s]
  from t [of "\<lparr>circle.center = vec 305 40, velocity = vec 1 2, radius = Val 5\<rparr>" 305 40 "vec 300 300"]
    t [of "\<lparr>circle.center = vec (- 5) 40, velocity = vec 1 2, radius = Val 5\<rparr>" "- 5" 40 "vec 300 300"]
    t [of "\<lparr>circle.center = vec 304 (- 4), velocity = vec 1 2, radius = Val 5\<rparr>" 304 "- 4" "vec 300 300"]
  show ?thesis by simp
qed

section \<open>The step over all circles\<close>

lemma those_snoc:
  "those (xs @ [r]) =
     (case those xs of None \<Rightarrow> None
      | Some ys \<Rightarrow> (case r of None \<Rightarrow> None | Some z \<Rightarrow> Some (ys @ [z])))"
  by (induction xs) (auto split: option.splits)

lemma segmentsPass_stuck:
  "foldl (\<lambda>r segment. Option.bind r (\<lambda>b. collide_spec b segment)) None segments = None"
  by (induction segments) simp_all

lemma segmentsPass_Nil: "segmentsPass_spec [] c = Some c"
  by (simp add: segmentsPass_spec_def)

lemma segmentsPass_Cons:
  "segmentsPass_spec (l # ls) c = Option.bind (collide_spec c l) (segmentsPass_spec ls)"
  by (cases "collide_spec c l") (simp_all add: segmentsPass_spec_def segmentsPass_stuck)

text \<open>The inner loop is the pass over the segments.\<close>

lemma bounceOffLines_spec: "bounceOffLines c ls = segmentsPass_spec ls c"
proof (induction ls arbitrary: c)
  case Nil
  then show ?case by (simp add: segmentsPass_Nil)
next
  case (Cons l ls)
  show ?case
  proof (cases "isLineIntersectingCircle c l")
    case True
    then show ?thesis
      using Cons.IH
      by (cases "bounceCircle c l") (simp_all add: segmentsPass_Cons collide_spec_def)
  next
    case False
    then show ?thesis
      using Cons.IH by (simp add: segmentsPass_Cons collide_spec_def)
  qed
qed

lemma gravity_spec_eq: "gravity_spec c = applyGravity c"
  by (simp add: gravity_spec_def applyGravity_def)

lemma motion_spec_eq: "motion_spec c = moveCircle c"
  by (simp add: motion_spec_def moveCircle_def)

lemma processBody_spec_eq:
  "processBody_spec ls c = map_option (\<lambda>b. moveCircle (applyGravity b)) (bounceOffLines c ls)"
  by (simp add: processBody_spec_def bounceOffLines_spec gravity_spec_eq motion_spec_eq)

text \<open>
  The loop invariant: with the indices below \<open>i\<close> still to do, the circles at and
  above \<open>i\<close> are done and the others are as they were.
\<close>

lemma updateCirclesFrom_spec:
  assumes "circles w = pre @ post" "length pre = i"
  shows "updateCirclesFrom i w =
     map_option (\<lambda>cs. w\<lparr>circles := filter (\<lambda>c. isCircleInWorld c (dimensions w)) cs @ post\<rparr>)
       (those (map (processBody_spec (lines w)) pre))"
  using assms
proof (induction i arbitrary: w pre post)
  case 0
  then show ?case by simp
next
  case (Suc i)
  from Suc.prems(2) obtain pre0 c where pre: "pre = pre0 @ [c]" and len0: "i = length pre0"
    by (metis length_Suc_conv_rev)
  from Suc.prems(1) pre have cw: "circles w = pre0 @ c # post" by simp
  with len0 have nth: "circles w ! i = c" by simp
  show ?case
  proof (cases "bounceOffLines c (lines w)")
    case None
    then show ?thesis
      by (simp add: nth pre those_snoc processBody_spec_eq split: option.splits)
  next
    case (Some c1)
    define c2 where "c2 = moveCircle (applyGravity c1)"
    define post' where "post' = (if isCircleInWorld c2 (dimensions w) then c2 # post else post)"
    define w' where "w' = w\<lparr>circles := pre0 @ post'\<rparr>"
    have upd: "(circles w)[i := c2] = pre0 @ c2 # post"
      using len0 by (simp add: cw)
    have spl: "splice1 (pre0 @ c2 # post) i = pre0 @ post"
      using len0 by (simp add: splice1_def)
    have step: "updateCirclesFrom (Suc i) w = updateCirclesFrom i w'"
      by (simp add: nth Some Let_def c2_def [symmetric] upd spl w'_def post'_def)
    have w': "circles w' = pre0 @ post'" "lines w' = lines w" "dimensions w' = dimensions w"
      by (simp_all add: w'_def)
    have p: "processBody_spec (lines w) c = Some c2"
      by (simp add: processBody_spec_eq Some c2_def)
    have "updateCirclesFrom i w' =
       map_option (\<lambda>cs. w'\<lparr>circles := filter (\<lambda>c. isCircleInWorld c (dimensions w')) cs @ post'\<rparr>)
         (those (map (processBody_spec (lines w')) pre0))"
      by (rule Suc.IH [OF w'(1) len0 [symmetric]])
    also have "\<dots> =
       map_option (\<lambda>cs. w\<lparr>circles := filter (\<lambda>c. isCircleInWorld c (dimensions w)) cs @ post\<rparr>)
         (those (map (processBody_spec (lines w)) pre))"
      by (cases "those (map (processBody_spec (lines w)) pre0)")
        (simp_all add: w'(2,3) pre those_snoc p, simp_all add: w'_def post'_def)
    finally show ?thesis using step by simp
  qed
qed

text \<open>
  Claim C7. In a step every circle is processed once: it meets every line in the order
  of the array, then gravity changes its velocity, then it moves, then it is removed if
  it is out of the world; removing a circle neither skips nor repeats another. The loop
  over the indices with its \<open>splice\<close> is the step in the words of the specification.
\<close>

theorem updateCircles_once_each:
  "updateCircles w = updateCircles_spec w"
  using updateCirclesFrom_spec [of w "circles w" "[]" "length (circles w)"]
  by (simp add: updateCircles_def updateCircles_spec_def)

text \<open>
  A circle with integer data far from a horizontal line with integer data does not
  intersect it.
\<close>

lemma distance_far:
  assumes "px \<in> \<int>" "py \<in> \<int>" "qx \<in> \<int>" "qy \<in> \<int>"
    and "\<bar>px\<bar> \<le> 2 ^ 20" "\<bar>py\<bar> \<le> 2 ^ 20" "\<bar>qx\<bar> \<le> 2 ^ 20" "\<bar>qy\<bar> \<le> 2 ^ 20"
    and "r \<in> \<int>" "0 \<le> r" "r * r \<le> (px - qx) * (px - qx) + (py - qy) * (py - qy)"
  shows "\<not> distance (vec px py) (vec qx qy) < Val r"
proof -
  define dx where "dx = px - qx"
  define dy where "dy = py - qy"
  define S where "S = dx * dx + dy * dy"
  have dxy: "dx \<in> \<int>" "dy \<in> \<int>" "\<bar>dx\<bar> \<le> 2 ^ 21" "\<bar>dy\<bar> \<le> 2 ^ 21"
    using assms(1-8) by (simp_all add: dx_def dy_def)
  have "\<bar>dx\<bar> * \<bar>dx\<bar> \<le> 2 ^ 21 * 2 ^ 21" "\<bar>dy\<bar> * \<bar>dy\<bar> \<le> 2 ^ 21 * 2 ^ 21"
    using dxy(3,4) by (intro mult_mono; simp)+
  then have sq: "\<bar>dx * dx\<bar> \<le> 2 ^ 42" "\<bar>dy * dy\<bar> \<le> 2 ^ 42"
    by (simp_all add: abs_mult)
  have S: "S \<in> \<int>" "0 \<le> S" "S \<le> 2 ^ 43"
    using dxy(1,2) sq by (simp_all add: S_def)
  from S(1) obtain n where n: "S = of_int n" by (auto elim: Ints_cases)
  from assms(9) obtain k where k: "r = of_int k" by (auto elim: Ints_cases)
  have d: "distance (vec px py) (vec qx qy) = fl (sqrt S)"
    using assms(1-8) dxy sq S
    by (simp add: distance_def fl_Ints dx_def [symmetric] dy_def [symmetric] S_def [symmetric])
  have "sqrt S \<le> S + 1"
  proof -
    have "S \<le> (S + 1) * (S + 1)" using S(2) by (simp add: algebra_simps)
    then have "sqrt S \<le> sqrt ((S + 1) * (S + 1))" by (rule real_sqrt_le_mono)
    also have "\<dots> = \<bar>S + 1\<bar>" by (rule real_sqrt_abs2)
    also have "\<dots> = S + 1" using S(2) by simp
    finally show ?thesis .
  qed
  then have hi: "sqrt S \<le> of_int (n + 1)" by (simp add: n)
  from assms(11) have "r * r \<le> S" by (simp add: S_def dx_def dy_def)
  then have "sqrt (r * r) \<le> sqrt S" by (rule real_sqrt_le_mono)
  then have "\<bar>r\<bar> \<le> sqrt S" by (simp only: real_sqrt_abs2)
  then have lo: "of_int k \<le> sqrt S" using assms(10) by (simp add: k)
  from lo hi have "(of_int k :: real) \<le> of_int (n + 1)" by linarith
  then have kn: "k \<le> n + 1" by (simp only: of_int_le_iff)
  from S(3) have "(of_int n :: real) \<le> 2 ^ 43" by (simp add: n)
  then have n43: "n \<le> 2 ^ 43" by (metis of_int_le_numeral_power_cancel_iff)
  from S(2) have n0: "0 \<le> n" by (simp add: n)
  from assms(10) have k0: "0 \<le> k" by (simp add: k)
  from n0 n43 k0 kn have b: "\<bar>k\<bar> < 2 ^ 53" "\<bar>n + 1\<bar> < 2 ^ 53" by simp_all
  from fl_between [OF lo hi b] obtain v where v: "fl (sqrt S) = Val v" "of_int k \<le> v" by auto
  then show ?thesis by (simp add: d k)
qed

text \<open>A circle with integer data beside or beyond a horizontal line.\<close>

lemma far_from_flat:
  assumes "line.center l = vec cx cy" "len l = Val (2 * h)" "angle l = Val 0"
    and "cx \<in> \<int>" "cy \<in> \<int>" "h \<in> \<int>"
    and "\<bar>cx\<bar> \<le> 2 ^ 19" "\<bar>cy\<bar> \<le> 2 ^ 19" "\<bar>h\<bar> \<le> 2 ^ 19" "0 < h"
    and "circle.center c = vec px py" "px \<in> \<int>" "py \<in> \<int>" "\<bar>px\<bar> \<le> 2 ^ 19" "\<bar>py\<bar> \<le> 2 ^ 19"
    and "radius c = Val r" "r \<in> \<int>" "0 \<le> r"
    and "r \<le> \<bar>py - cy\<bar> \<or> r \<le> px - (cx + h) \<or> r \<le> cx - h - px"
  shows "\<not> isLineIntersectingCircle c l"
proof -
  define qx where "qx = (if cx + h \<le> px then cx + h else if px \<le> cx - h then cx - h else px)"
  have b: "\<bar>cx\<bar> \<le> 2 ^ 40" "\<bar>cy\<bar> \<le> 2 ^ 40" "\<bar>h\<bar> \<le> 2 ^ 25" "\<bar>px\<bar> \<le> 2 ^ 40" "\<bar>py\<bar> \<le> 2 ^ 40"
    using assms(7,8,9,14,15) by simp_all
  have q: "pointOnLineClosestToCircle c l = vec qx cy"
    unfolding qx_def
    by (rule closest_horizontal [OF assms(1-6) b(1-3) assms(10-13) b(4,5)])
  have qi: "qx \<in> \<int>" "\<bar>qx\<bar> \<le> 2 ^ 20"
    using assms(4,6,12,7,9,14) by (auto simp: qx_def)
  have "r * r \<le> (px - qx) * (px - qx) + (py - cy) * (py - cy)"
  proof -
    from assms(19) have "r \<le> \<bar>py - cy\<bar> \<or> r \<le> \<bar>px - qx\<bar>"
      using assms(10) by (auto simp: qx_def)
    then show ?thesis
    proof
      assume "r \<le> \<bar>py - cy\<bar>"
      with assms(18) have "r * r \<le> \<bar>py - cy\<bar> * \<bar>py - cy\<bar>" by (intro mult_mono) simp_all
      also have "\<dots> = (py - cy) * (py - cy)" by simp
      also have "\<dots> \<le> (px - qx) * (px - qx) + (py - cy) * (py - cy)" by simp
      finally show ?thesis .
    next
      assume "r \<le> \<bar>px - qx\<bar>"
      with assms(18) have "r * r \<le> \<bar>px - qx\<bar> * \<bar>px - qx\<bar>" by (intro mult_mono) simp_all
      also have "\<dots> = (px - qx) * (px - qx)" by simp
      also have "\<dots> \<le> (px - qx) * (px - qx) + (py - cy) * (py - cy)" by simp
      finally show ?thesis .
    qed
  qed
  from distance_far [OF assms(12,13) qi(1) assms(5) _ _ qi(2) _ assms(17,18) this]
    assms(14,15,8)
  have "\<not> distance (vec px py) (vec qx cy) < Val r" by simp
  then show ?thesis
    by (simp add: isLineIntersectingCircle_def q assms(11,16))
qed

text \<open>
  Gravity and the move of a circle with integer data: the centre moves by the velocity,
  and down by the rounded gravity on top of it.
\<close>

lemma fall:
  assumes "circle.center c = vec px py" "velocity c = vec vx vy"
    and "px \<in> \<int>" "py \<in> \<int>" "vx \<in> \<int>" "vy \<in> \<int>"
    and "\<bar>px\<bar> \<le> 2 ^ 20" "\<bar>py\<bar> \<le> 2 ^ 20" "\<bar>vx\<bar> \<le> 2 ^ 20" "\<bar>vy\<bar> \<le> 2 ^ 20"
  shows "\<exists>qy. circle.center (moveCircle (applyGravity c)) = vec (px + vx) qy \<and>
           py + vy \<le> qy \<and> qy \<le> py + vy + 1"
proof -
  from fl_gravity obtain g where g: "fl 0.06 = Val g" "0 \<le> g" "g \<le> 1" by blast
  from assms(4) obtain n where n: "py = of_int n" by (auto elim: Ints_cases)
  from assms(6) obtain m where m: "vy = of_int m" by (auto elim: Ints_cases)
  note nm = n m
  from assms(8,10) have "\<bar>of_int n :: real\<bar> \<le> 2 ^ 20" "\<bar>of_int m :: real\<bar> \<le> 2 ^ 20"
    by (simp_all add: nm)
  then have b: "\<bar>n\<bar> \<le> 2 ^ 20" "\<bar>m\<bar> \<le> 2 ^ 20"
    by (metis of_int_abs of_int_le_numeral_power_cancel_iff)+
  from b have bb: "\<bar>m\<bar> < 2 ^ 53" "\<bar>m + 1\<bar> < 2 ^ 53" "\<bar>n + m\<bar> < 2 ^ 53" "\<bar>n + m + 1\<bar> < 2 ^ 53"
    by simp_all
  have "of_int m \<le> vy + g" "vy + g \<le> of_int (m + 1)" using g by (simp_all add: nm)
  from fl_between [OF this bb(1,2)] obtain w where
    w: "fl (vy + g) = Val w" "of_int m \<le> w" "w \<le> of_int (m + 1)" by blast
  have "of_int (n + m) \<le> py + w" "py + w \<le> of_int (n + m + 1)" using w by (simp_all add: nm)
  from fl_between [OF this bb(3,4)] obtain q where
    q: "fl (py + w) = Val q" "of_int (n + m) \<le> q" "q \<le> of_int (n + m + 1)" by blast
  have "fl (px + vx) = Val (px + vx)"
    using assms(3,5,7,9) by (intro fl_Ints) simp_all
  then have "circle.center (moveCircle (applyGravity c)) = vec (px + vx) q"
    by (simp add: moveCircle_def applyGravity_def assms(1,2) g(1) [simplified] w(1) q(1))
  with q show ?thesis by (auto simp: nm)
qed

text \<open>
  A step of three circles and two lines. The first circle misses the first line and
  bounces off the second, the second circle leaves the world and is removed, the third
  falls.
\<close>

lemma bounceOffLines_example:
  "bounceOffLines \<lparr>circle.center = vec 100 97, velocity = vec 0 2, radius = Val 5\<rparr>
     [makeLine (vec 200 200), makeLine (vec 100 100)]
     = Some \<lparr>circle.center = vec 100 95, velocity = vec 0 (- 2), radius = Val 5\<rparr>"
  "bounceOffLines \<lparr>circle.center = vec 304 10, velocity = vec 1 0, radius = Val 5\<rparr>
     [makeLine (vec 200 200), makeLine (vec 100 100)]
     = Some \<lparr>circle.center = vec 304 10, velocity = vec 1 0, radius = Val 5\<rparr>"
  "bounceOffLines \<lparr>circle.center = vec 20 20, velocity = vec 0 0, radius = Val 5\<rparr>
     [makeLine (vec 200 200), makeLine (vec 100 100)]
     = Some \<lparr>circle.center = vec 20 20, velocity = vec 0 0, radius = Val 5\<rparr>"
proof -
  have far: "\<not> isLineIntersectingCircle \<lparr>circle.center = vec px py, velocity = v, radius = Val 5\<rparr>
      (makeLine (vec cx cy))"
    if "cx \<in> \<int>" "cy \<in> \<int>" "\<bar>cx\<bar> \<le> 1000" "\<bar>cy\<bar> \<le> 1000"
      "px \<in> \<int>" "py \<in> \<int>" "\<bar>px\<bar> \<le> 1000" "\<bar>py\<bar> \<le> 1000"
      "5 \<le> \<bar>py - cy\<bar> \<or> 5 \<le> px - (cx + 35) \<or> 5 \<le> cx - 35 - px"
    for px py v cx cy
    using that
    by (intro far_from_flat [where r = 5 and px = px and py = py, OF makeLine_fields])
      simp_all
  have a1: "\<not> isLineIntersectingCircle \<lparr>circle.center = vec 100 97, velocity = vec 0 2, radius = Val 5\<rparr>
      (makeLine (vec 200 200))"
    by (rule far) simp_all
  have a2: "isLineIntersectingCircle \<lparr>circle.center = vec 100 97, velocity = vec 0 2, radius = Val 5\<rparr>
      (makeLine (vec 100 100))"
    by (simp add: over_the_flat(3))
  have b1: "\<not> isLineIntersectingCircle \<lparr>circle.center = vec 304 10, velocity = vec 1 0, radius = Val 5\<rparr>
      (makeLine (vec 200 200))"
    by (rule far) simp_all
  have b2: "\<not> isLineIntersectingCircle \<lparr>circle.center = vec 304 10, velocity = vec 1 0, radius = Val 5\<rparr>
      (makeLine (vec 100 100))"
    by (rule far) simp_all
  have c1: "\<not> isLineIntersectingCircle \<lparr>circle.center = vec 20 20, velocity = vec 0 0, radius = Val 5\<rparr>
      (makeLine (vec 200 200))"
    by (rule far) simp_all
  have c2: "\<not> isLineIntersectingCircle \<lparr>circle.center = vec 20 20, velocity = vec 0 0, radius = Val 5\<rparr>
      (makeLine (vec 100 100))"
    by (rule far) simp_all
  show "bounceOffLines \<lparr>circle.center = vec 100 97, velocity = vec 0 2, radius = Val 5\<rparr>
     [makeLine (vec 200 200), makeLine (vec 100 100)]
     = Some \<lparr>circle.center = vec 100 95, velocity = vec 0 (- 2), radius = Val 5\<rparr>"
    by (simp add: a1 a2 bounce_example)
  show "bounceOffLines \<lparr>circle.center = vec 304 10, velocity = vec 1 0, radius = Val 5\<rparr>
     [makeLine (vec 200 200), makeLine (vec 100 100)]
     = Some \<lparr>circle.center = vec 304 10, velocity = vec 1 0, radius = Val 5\<rparr>"
    by (simp add: b1 b2)
  show "bounceOffLines \<lparr>circle.center = vec 20 20, velocity = vec 0 0, radius = Val 5\<rparr>
     [makeLine (vec 200 200), makeLine (vec 100 100)]
     = Some \<lparr>circle.center = vec 20 20, velocity = vec 0 0, radius = Val 5\<rparr>"
    by (simp add: c1 c2)
qed

lemma radius_fall [simp]: "radius (moveCircle (applyGravity c)) = radius c"
  by (simp add: moveCircle_def applyGravity_def)

lemma in_world_example:
  "isCircleInWorld
     (moveCircle (applyGravity \<lparr>circle.center = vec 100 95, velocity = vec 0 (- 2), radius = Val 5\<rparr>))
     (vec 300 300)"
  "\<not> isCircleInWorld
     (moveCircle (applyGravity \<lparr>circle.center = vec 304 10, velocity = vec 1 0, radius = Val 5\<rparr>))
     (vec 300 300)"
  "isCircleInWorld
     (moveCircle (applyGravity \<lparr>circle.center = vec 20 20, velocity = vec 0 0, radius = Val 5\<rparr>))
     (vec 300 300)"
proof -
  from fall [of "\<lparr>circle.center = vec 100 95, velocity = vec 0 (- 2), radius = Val 5\<rparr>" 100 95 0 "- 2"]
  show "isCircleInWorld
     (moveCircle (applyGravity \<lparr>circle.center = vec 100 95, velocity = vec 0 (- 2), radius = Val 5\<rparr>))
     (vec 300 300)"
    by (auto simp: isCircleInWorld_def fl_Ints)
  from fall [of "\<lparr>circle.center = vec 304 10, velocity = vec 1 0, radius = Val 5\<rparr>" 304 10 1 0]
  show "\<not> isCircleInWorld
     (moveCircle (applyGravity \<lparr>circle.center = vec 304 10, velocity = vec 1 0, radius = Val 5\<rparr>))
     (vec 300 300)"
    by (auto simp: isCircleInWorld_def fl_Ints)
  from fall [of "\<lparr>circle.center = vec 20 20, velocity = vec 0 0, radius = Val 5\<rparr>" 20 20 0 0]
  show "isCircleInWorld
     (moveCircle (applyGravity \<lparr>circle.center = vec 20 20, velocity = vec 0 0, radius = Val 5\<rparr>))
     (vec 300 300)"
    by (auto simp: isCircleInWorld_def fl_Ints)
qed

lemma updateCircles_example:
  "updateCircles
     \<lparr>circles =
        [\<lparr>circle.center = vec 100 97, velocity = vec 0 2, radius = Val 5\<rparr>,
         \<lparr>circle.center = vec 304 10, velocity = vec 1 0, radius = Val 5\<rparr>,
         \<lparr>circle.center = vec 20 20, velocity = vec 0 0, radius = Val 5\<rparr>],
      lines = [makeLine (vec 200 200), makeLine (vec 100 100)],
      dimensions = vec 300 300,
      timeLastCircleMade = 0\<rparr>
   = Some
     \<lparr>circles =
        [moveCircle (applyGravity
           \<lparr>circle.center = vec 100 95, velocity = vec 0 (- 2), radius = Val 5\<rparr>),
         moveCircle (applyGravity
           \<lparr>circle.center = vec 20 20, velocity = vec 0 0, radius = Val 5\<rparr>)],
      lines = [makeLine (vec 200 200), makeLine (vec 100 100)],
      dimensions = vec 300 300,
      timeLastCircleMade = 0\<rparr>"
  by (simp add: updateCircles_def bounceOffLines_example in_world_example Let_def splice1_def
      del: bounceOffLines.simps)

theorem updateCircles_once_each_witness:
  "updateCircles_spec
     \<lparr>circles =
        [\<lparr>circle.center = vec 100 97, velocity = vec 0 2, radius = Val 5\<rparr>,
         \<lparr>circle.center = vec 304 10, velocity = vec 1 0, radius = Val 5\<rparr>,
         \<lparr>circle.center = vec 20 20, velocity = vec 0 0, radius = Val 5\<rparr>],
      lines = [makeLine (vec 200 200), makeLine (vec 100 100)],
      dimensions = vec 300 300,
      timeLastCircleMade = 0\<rparr>
   = Some
     \<lparr>circles =
        [moveCircle (applyGravity
           \<lparr>circle.center = vec 100 95, velocity = vec 0 (- 2), radius = Val 5\<rparr>),
         moveCircle (applyGravity
           \<lparr>circle.center = vec 20 20, velocity = vec 0 0, radius = Val 5\<rparr>)],
      lines = [makeLine (vec 200 200), makeLine (vec 100 100)],
      dimensions = vec 300 300,
      timeLastCircleMade = 0\<rparr>"
  using updateCircles_once_each
     [of "\<lparr>circles =
        [\<lparr>circle.center = vec 100 97, velocity = vec 0 2, radius = Val 5\<rparr>,
         \<lparr>circle.center = vec 304 10, velocity = vec 1 0, radius = Val 5\<rparr>,
         \<lparr>circle.center = vec 20 20, velocity = vec 0 0, radius = Val 5\<rparr>],
      lines = [makeLine (vec 200 200), makeLine (vec 100 100)],
      dimensions = vec 300 300,
      timeLastCircleMade = 0\<rparr>"]
    updateCircles_example
  by simp

section \<open>Fields that never change\<close>

lemma bounceCircle_radius:
  assumes "bounceCircle c l = Some c'"
  shows "radius c' = radius c"
proof -
  from assms have "radius c' = radius (reflectVelocity c l)"
    unfolding bounceCircle_def by (simp add: clearLine_keeps)
  then show ?thesis by (simp add: reflectVelocity_def Let_def)
qed

lemma bounceOffLines_radius:
  "bounceOffLines c ls = Some c' \<Longrightarrow> radius c' = radius c"
proof (induction ls arbitrary: c)
  case Nil
  then show ?case by simp
next
  case (Cons l ls)
  show ?case
  proof (cases "isLineIntersectingCircle c l")
    case True
    with Cons.prems obtain c1 where b: "bounceCircle c l = Some c1"
      and r: "bounceOffLines c1 ls = Some c'"
      by (auto split: option.splits)
    from Cons.IH [OF r] bounceCircle_radius [OF b] show ?thesis by simp
  next
    case False
    with Cons.prems Cons.IH show ?thesis by simp
  qed
qed

lemma processBody_radius:
  "processBody_spec ls c = Some c' \<Longrightarrow> radius c' = radius c"
  by (auto simp: processBody_spec_eq dest: bounceOffLines_radius)

lemma those_map_set:
  "those (map f xs) = Some ys \<Longrightarrow> b \<in> set ys \<Longrightarrow> \<exists>a \<in> set xs. f a = Some b"
proof (induction xs arbitrary: ys)
  case Nil
  then show ?case by simp
next
  case (Cons a xs)
  then show ?case by (auto split: option.splits)
qed

lemma updateCircles_radius:
  assumes "updateCircles w = Some w'" "c' \<in> set (circles w')"
  shows "lines w' = lines w \<and> dimensions w' = dimensions w \<and>
         (\<exists>c \<in> set (circles w). radius c' = radius c)"
proof -
  from assms(1) obtain cs where
    cs: "those (map (processBody_spec (lines w)) (circles w)) = Some cs"
    and w': "w' = w\<lparr>circles := filter (\<lambda>c. isCircleInWorld c (dimensions w)) cs\<rparr>"
    using updateCirclesFrom_spec [of w "circles w" "[]" "length (circles w)"]
    by (auto simp: updateCircles_def)
  from assms(2) w' have "c' \<in> set cs" by simp
  from those_map_set [OF cs this] obtain c where
    "c \<in> set (circles w)" "processBody_spec (lines w) c = Some c'" by blast
  with processBody_radius [of "lines w" c c'] w' show ?thesis by auto
qed

lemma rotateLines_fields:
  "map line.center (rotateLines ls) = map line.center ls \<and>
   map len (rotateLines ls) = map len ls \<and>
   map rotateSpeed (rotateLines ls) = map rotateSpeed ls"
  by (induction ls) simp_all

lemma update_fields:
  assumes "update now w = Some w'"
  shows "map line.center (lines w') = map line.center (lines w) \<and>
         map len (lines w') = map len (lines w) \<and>
         map rotateSpeed (lines w') = map rotateSpeed (lines w) \<and>
         (\<forall>c' \<in> set (circles w').
            c' = makeCircle \<lparr>x = x (dimensions w) / Val 2, y = Val (- 5)\<rparr> \<or>
            (\<exists>c0 \<in> set (circles w). radius c' = radius c0))"
proof -
  from assms obtain w1 where w1: "updateCircles w = Some w1"
    and w': "w' = updateLines (createNewCircleIfDue now w1)"
    by (auto simp: update_def split: option.splits)
  from w1 have same: "lines w1 = lines w" "dimensions w1 = dimensions w"
    using updateCirclesFrom_spec [of w "circles w" "[]" "length (circles w)"]
    by (auto simp: updateCircles_def)
  have l: "lines w' = rotateLines (lines w)"
    by (simp add: w' updateLines_def createNewCircleIfDue_def same)
  have "c' = makeCircle \<lparr>x = x (dimensions w) / Val 2, y = Val (- 5)\<rparr> \<or>
            (\<exists>c0 \<in> set (circles w). radius c' = radius c0)"
    if "c' \<in> set (circles w')" for c'
  proof -
    from that have "c' = makeCircle \<lparr>x = x (dimensions w) / Val 2, y = Val (- 5)\<rparr>
        \<or> c' \<in> set (circles w1)"
      by (auto simp: w' updateLines_def createNewCircleIfDue_def same split: if_splits)
    with updateCircles_radius [OF w1] show ?thesis by blast
  qed
  with l show ?thesis by (simp add: rotateLines_fields)
qed

lemma fl_half: "fl (1 / 2) = Val (1 / 2)"
  by (rule fl_exact [where m = 1 and k = "- 1"]) (simp_all add: powr_neg_numeral)

lemma update_example:
  "update 1000
     \<lparr>circles =
        [\<lparr>circle.center = vec 100 97, velocity = vec 0 2, radius = Val 5\<rparr>,
         \<lparr>circle.center = vec 304 10, velocity = vec 1 0, radius = Val 5\<rparr>,
         \<lparr>circle.center = vec 20 20, velocity = vec 0 0, radius = Val 5\<rparr>],
      lines = [makeLine (vec 200 200), makeLine (vec 100 100)],
      dimensions = vec 300 300,
      timeLastCircleMade = 0\<rparr>
   = Some
     \<lparr>circles =
        [moveCircle (applyGravity
           \<lparr>circle.center = vec 100 95, velocity = vec 0 (- 2), radius = Val 5\<rparr>),
         moveCircle (applyGravity
           \<lparr>circle.center = vec 20 20, velocity = vec 0 0, radius = Val 5\<rparr>),
         \<lparr>circle.center = vec 150 (- 5), velocity = vec 0 0, radius = Val 5\<rparr>],
      lines =
        [\<lparr>line.center = vec 200 200, len = Val 70, angle = Val (1 / 2), rotateSpeed = Val (1 / 2)\<rparr>,
         \<lparr>line.center = vec 100 100, len = Val 70, angle = Val (1 / 2), rotateSpeed = Val (1 / 2)\<rparr>],
      dimensions = vec 300 300,
      timeLastCircleMade = 1000\<rparr>"
  unfolding update_def updateCircles_example
  by (simp add: createNewCircleIfDue_def updateLines_def makeCircle_def makeLine_def fl_Ints
      fl_half [simplified])

text \<open>
  Claim C9. No operation of the step changes the radius of a circle, or the centre,
  the length or the rotation speed of a line: gravity, the move, the reflection, the
  bounce, the pass over the circles, the rotation of the lines and the whole update
  keep them. A circle after an update is the new circle or has the radius of a circle
  before it.
\<close>

theorem structural_fields_preserved:
  "radius (applyGravity c) = radius c \<and>
   radius (moveCircle c) = radius c \<and>
   radius (reflectVelocity c l) = radius c \<and>
   (\<forall>c'. bounceCircle c l = Some c' \<longrightarrow> radius c' = radius c) \<and>
   (\<forall>w' c'. updateCircles w = Some w' \<and> c' \<in> set (circles w') \<longrightarrow>
      lines w' = lines w \<and> (\<exists>c0 \<in> set (circles w). radius c' = radius c0)) \<and>
   map line.center (lines (updateLines w)) = map line.center (lines w) \<and>
   map len (lines (updateLines w)) = map len (lines w) \<and>
   map rotateSpeed (lines (updateLines w)) = map rotateSpeed (lines w) \<and>
   circles (updateLines w) = circles w \<and>
   (\<forall>now w'. update now w = Some w' \<longrightarrow>
      map line.center (lines w') = map line.center (lines w) \<and>
      map len (lines w') = map len (lines w) \<and>
      map rotateSpeed (lines w') = map rotateSpeed (lines w) \<and>
      (\<forall>c' \<in> set (circles w').
         c' = makeCircle \<lparr>x = x (dimensions w) / Val 2, y = Val (- 5)\<rparr> \<or>
         (\<exists>c0 \<in> set (circles w). radius c' = radius c0)))"
proof -
  have "radius (applyGravity c) = radius c" "radius (moveCircle c) = radius c"
    "radius (reflectVelocity c l) = radius c"
    by (simp_all add: applyGravity_def moveCircle_def reflectVelocity_def Let_def)
  moreover have "\<forall>c'. bounceCircle c l = Some c' \<longrightarrow> radius c' = radius c"
    by (blast dest: bounceCircle_radius)
  moreover have "\<forall>w' c'. updateCircles w = Some w' \<and> c' \<in> set (circles w') \<longrightarrow>
      lines w' = lines w \<and> (\<exists>c0 \<in> set (circles w). radius c' = radius c0)"
    by (blast dest: updateCircles_radius)
  moreover have "map line.center (lines (updateLines w)) = map line.center (lines w)"
    "map len (lines (updateLines w)) = map len (lines w)"
    "map rotateSpeed (lines (updateLines w)) = map rotateSpeed (lines w)"
    "circles (updateLines w) = circles w"
    by (simp_all add: updateLines_def rotateLines_fields)
  moreover have "\<forall>now w'. update now w = Some w' \<longrightarrow>
      map line.center (lines w') = map line.center (lines w) \<and>
      map len (lines w') = map len (lines w) \<and>
      map rotateSpeed (lines w') = map rotateSpeed (lines w) \<and>
      (\<forall>c' \<in> set (circles w').
         c' = makeCircle \<lparr>x = x (dimensions w) / Val 2, y = Val (- 5)\<rparr> \<or>
         (\<exists>c0 \<in> set (circles w). radius c' = radius c0))"
    using update_fields by blast
  ultimately show ?thesis by blast
qed

theorem structural_fields_preserved_witness:
  "bounceCircle \<lparr>circle.center = vec 100 97, velocity = vec 0 2, radius = Val 5\<rparr>
     (makeLine (vec 100 100))
     = Some \<lparr>circle.center = vec 100 95, velocity = vec 0 (- 2), radius = Val 5\<rparr> \<and>
   radius \<lparr>circle.center = vec 100 95, velocity = vec 0 (- 2), radius = Val 5\<rparr>
     = radius \<lparr>circle.center = vec 100 97, velocity = vec 0 2, radius = Val 5\<rparr> \<and>
   (\<exists>w'. update 1000
     \<lparr>circles =
        [\<lparr>circle.center = vec 100 97, velocity = vec 0 2, radius = Val 5\<rparr>,
         \<lparr>circle.center = vec 304 10, velocity = vec 1 0, radius = Val 5\<rparr>,
         \<lparr>circle.center = vec 20 20, velocity = vec 0 0, radius = Val 5\<rparr>],
      lines = [makeLine (vec 200 200), makeLine (vec 100 100)],
      dimensions = vec 300 300,
      timeLastCircleMade = 0\<rparr> = Some w' \<and>
      map len (lines w') = map len [makeLine (vec 200 200), makeLine (vec 100 100)] \<and>
      map line.center (lines w') =
        map line.center [makeLine (vec 200 200), makeLine (vec 100 100)])"
proof -
  let ?c = "\<lparr>circle.center = vec 100 97, velocity = vec 0 2, radius = Val 5\<rparr>"
  let ?l = "makeLine (vec 100 100)"
  let ?w = "\<lparr>circles =
        [\<lparr>circle.center = vec 100 97, velocity = vec 0 2, radius = Val 5\<rparr>,
         \<lparr>circle.center = vec 304 10, velocity = vec 1 0, radius = Val 5\<rparr>,
         \<lparr>circle.center = vec 20 20, velocity = vec 0 0, radius = Val 5\<rparr>],
      lines = [makeLine (vec 200 200), makeLine (vec 100 100)],
      dimensions = vec 300 300,
      timeLastCircleMade = 0\<rparr>"
  note t = structural_fields_preserved [of ?c ?l ?w]
  note c2 = conjunct2
  from t [THEN c2, THEN c2, THEN c2, THEN conjunct1, rule_format, OF bounce_example]
  have 1: "radius \<lparr>circle.center = vec 100 95, velocity = vec 0 (- 2), radius = Val 5\<rparr> = radius ?c" .
  note u = t [THEN c2, THEN c2, THEN c2, THEN c2, THEN c2, THEN c2, THEN c2, THEN c2, THEN c2,
      rule_format, OF update_example]
  have l: "lines ?w = [makeLine (vec 200 200), makeLine (vec 100 100)]" by simp
  from update_example u [THEN conjunct1] u [THEN c2, THEN conjunct1]
  have 3: "\<exists>w'. update 1000 ?w = Some w' \<and>
      map len (lines w') = map len [makeLine (vec 200 200), makeLine (vec 100 100)] \<and>
      map line.center (lines w') =
        map line.center [makeLine (vec 200 200), makeLine (vec 100 100)]"
    unfolding l by (intro exI conjI)
  from bounce_example 1 3 show ?thesis by (intro conjI)
qed

end
